theory Spec2Isabelle
  imports Complex_Main
begin

section \<open>The wind-solar-storage capacity expansion model\<close>

text \<open>
  The program declares a Pyomo model: two index sets, four parameters, five families of
  non-negative variables, one objective rule and five constraint rules, each rule a Python
  function of the model (and of the hour) that returns an expression object. The embedding
  keeps that shape: a rule is a function from the model to an expression tree, subscripting
  a parameter or a variable can raise and is a branch of the result, and building the
  instance applies every rule to every hour of the time index.

  Numbers are real numbers: the model is read as the linear program its expressions denote,
  and the decimal literals of the source stand for the decimal fractions they spell.
\<close>

subsection \<open>Constants and assumptions (lines 14 to 25)\<close>

definition solar_cap_cost :: real where "solar_cap_cost = 800000000"
definition wind_cap_cost :: real where "wind_cap_cost = 1200000000"
definition ESS_p_cap_cost :: real where "ESS_p_cap_cost = 200000000"
definition ESS_e_cap_cost :: real where "ESS_e_cap_cost = 150000000"

definition ESS_min_level :: real where "ESS_min_level = 0.20"
definition ESS_eta_c :: real where "ESS_eta_c = 0.95"
definition ESS_eta_d :: real where "ESS_eta_d = 0.9"
definition ESS_p_var_cost :: real where "ESS_p_var_cost = 5000"

definition curtailment_cost :: real where "curtailment_cost = 1000"

text \<open>Line 27 binds a number to the name \<open>demand\<close> that nothing reads; it has no counterpart here.\<close>

subsection \<open>Expressions, constraints, exceptions\<close>

text \<open>An exception is identified by the name of its class.\<close>

type_synonym error = string

text \<open>The five variable families of lines 49 to 53, each with the key it is indexed by.\<close>

datatype var = cap string | ESS_SOC int | ESS_c int | ESS_d int | curt int

datatype expr =
    Num real
  | Var var
  | Add expr expr
  | Sub expr expr
  | Mul expr expr
  | Div expr expr

datatype constr = Eq expr expr | Le expr expr | Ge expr expr

datatype domain = Reals | NonNegativeReals

fun expr_value :: "(var \<Rightarrow> real) \<Rightarrow> expr \<Rightarrow> real" where
  "expr_value a (Num r) = r"
| "expr_value a (Var v) = a v"
| "expr_value a (Add x y) = expr_value a x + expr_value a y"
| "expr_value a (Sub x y) = expr_value a x - expr_value a y"
| "expr_value a (Mul x y) = expr_value a x * expr_value a y"
| "expr_value a (Div x y) = expr_value a x / expr_value a y"

fun sat :: "(var \<Rightarrow> real) \<Rightarrow> constr \<Rightarrow> bool" where
  "sat a (Eq x y) = (expr_value a x = expr_value a y)"
| "sat a (Le x y) = (expr_value a x \<le> expr_value a y)"
| "sat a (Ge x y) = (expr_value a x \<ge> expr_value a y)"

fun in_domain :: "domain \<Rightarrow> real \<Rightarrow> bool" where
  "in_domain Reals r = True"
| "in_domain NonNegativeReals r = (0 \<le> r)"

text \<open>Sequencing of two steps of which the first may raise.\<close>

definition then_do :: "error + 'a \<Rightarrow> ('a \<Rightarrow> error + 'b) \<Rightarrow> error + 'b" where
  "then_do r f = (case r of Inl e \<Rightarrow> Inl e | Inr x \<Rightarrow> f x)"

subsection \<open>The model: sets and parameters (lines 33 to 46)\<close>

text \<open>
  \<open>model_t\<close> and \<open>model_tech\<close> are the ordered sets, the other four fields the parameters
  with the values they hold: the three hourly series after the data has been loaded, and
  the cost table. Line 33 initialises the time index with \<open>range(8760)\<close>; the loads of
  lines 44 to 46 name it as the index to load (\<open>index = model.t\<close>), so that the
  \<open>t\<close> column of the data file is the time index of the instance and the declared range
  stands only when the file lists the hours 0 to 8759.
\<close>

record model =
  model_t :: "int list"
  model_tech :: "string list"
  model_wind :: "int \<rightharpoonup> real"
  model_solar :: "int \<rightharpoonup> real"
  model_demand :: "int \<rightharpoonup> real"
  model_costs :: "string \<rightharpoonup> real"

text \<open>
  The model for a data file whose \<open>t\<close> column lists the hours 0 to 8759, as the declared
  \<open>range(8760)\<close> does: the four technologies in the order of line 34, the dictionary of
  line 40, and the three series \<open>w\<close>, \<open>s\<close>, \<open>d\<close> read from the file. The model for a
  file of another length is \<open>loaded_model\<close> below.
\<close>

definition tech_keys :: "string list" where
  "tech_keys = [''w_cap'', ''s_cap'', ''ESS_power_cap'', ''ESS_energy_cap'']"

definition cost_table :: "(string \<times> real) list" where
  "cost_table = [(''s_cap'', solar_cap_cost), (''w_cap'', wind_cap_cost),
                 (''ESS_power_cap'', ESS_p_cap_cost), (''ESS_energy_cap'', ESS_e_cap_cost)]"

definition wind_solar_storage_model ::
  "(int \<rightharpoonup> real) \<Rightarrow> (int \<rightharpoonup> real) \<Rightarrow> (int \<rightharpoonup> real) \<Rightarrow> model" where
  "wind_solar_storage_model w s d =
     \<lparr>model_t = [0..8759], model_tech = tech_keys,
      model_wind = w, model_solar = s, model_demand = d,
      model_costs = map_of cost_table\<rparr>"

text \<open>
  The two index sets are the ones lines 33 and 34 declare: the time index of a file that
  lists the hours 0 to 8759.
\<close>

definition declared_sets :: "model \<Rightarrow> bool" where
  "declared_sets m = (model_t m = [0..8759] \<and> model_tech m = tech_keys)"

text \<open>
  Subscripting. A key outside the index set of the component is a KeyError; a parameter
  that has no value at a key of its index set (and no default, as here) is a ValueError.
\<close>

definition param_get :: "'k list \<Rightarrow> ('k \<rightharpoonup> real) \<Rightarrow> 'k \<Rightarrow> error + real" where
  "param_get idx p k =
     (if k \<notin> set idx then Inl ''KeyError''
      else case p k of None \<Rightarrow> Inl ''ValueError'' | Some v \<Rightarrow> Inr v)"

definition var_get :: "'k list \<Rightarrow> ('k \<Rightarrow> var) \<Rightarrow> 'k \<Rightarrow> error + expr" where
  "var_get idx mk k = (if k \<in> set idx then Inr (Var (mk k)) else Inl ''KeyError'')"

text \<open>\<open>first()\<close> and \<open>last()\<close> of an ordered set; an empty set has neither.\<close>

definition t_first :: "model \<Rightarrow> error + int" where
  "t_first m = (case model_t m of [] \<Rightarrow> Inl ''IndexError'' | x # xs \<Rightarrow> Inr x)"

definition t_last :: "model \<Rightarrow> error + int" where
  "t_last m = (case model_t m of [] \<Rightarrow> Inl ''IndexError'' | x # xs \<Rightarrow> Inr (last (x # xs)))"

text \<open>Python's \<open>sum\<close> of a generator: the terms are produced in order, then added to 0.\<close>

fun collect :: "('a \<Rightarrow> error + 'b) \<Rightarrow> 'a list \<Rightarrow> error + 'b list" where
  "collect f [] = Inr []"
| "collect f (x # xs) =
     (case f x of Inl e \<Rightarrow> Inl e
      | Inr y \<Rightarrow> (case collect f xs of Inl e \<Rightarrow> Inl e | Inr ys \<Rightarrow> Inr (y # ys)))"

definition py_sum :: "expr list \<Rightarrow> expr" where
  "py_sum xs = foldl Add (Num 0) xs"

subsection \<open>Objective and constraint rules (lines 58 to 87)\<close>

definition obj_expression :: "model \<Rightarrow> error + expr" where
  "obj_expression m =
     then_do (collect (\<lambda>i.
         then_do (var_get (model_tech m) cap i) (\<lambda>c.
         then_do (param_get (model_tech m) (model_costs m) i) (\<lambda>k.
         Inr (Mul c (Num k))))) (model_tech m)) (\<lambda>capital.
     then_do (collect (\<lambda>t.
         then_do (var_get (model_t m) ESS_d t) (\<lambda>d.
         then_do (var_get (model_t m) curt t) (\<lambda>cu.
         Inr (Add (Mul d (Num ESS_p_var_cost)) (Mul cu (Num curtailment_cost)))))) (model_t m))
       (\<lambda>operation.
     Inr (Add (py_sum capital) (py_sum operation))))"

definition match_const :: "model \<Rightarrow> int \<Rightarrow> error + constr" where
  "match_const m i =
     then_do (param_get (model_t m) (model_solar m) i) (\<lambda>sv.
     then_do (var_get (model_tech m) cap ''s_cap'') (\<lambda>cs.
     then_do (param_get (model_t m) (model_wind m) i) (\<lambda>wv.
     then_do (var_get (model_tech m) cap ''w_cap'') (\<lambda>cw.
     then_do (var_get (model_t m) ESS_d i) (\<lambda>d.
     then_do (var_get (model_t m) ESS_c i) (\<lambda>c.
     then_do (var_get (model_t m) curt i) (\<lambda>cu.
     then_do (param_get (model_t m) (model_demand m) i) (\<lambda>dv.
     Inr (Eq (Sub (Sub (Sub (Add (Add (Mul (Num sv) cs) (Mul (Num wv) cw)) d) c) cu) (Num dv))
             (Num 0))))))))))"

definition ESS_charge_disc_const :: "model \<Rightarrow> int \<Rightarrow> error + constr" where
  "ESS_charge_disc_const m i =
     then_do (var_get (model_t m) ESS_c i) (\<lambda>c.
     then_do (var_get (model_t m) ESS_d i) (\<lambda>d.
     then_do (var_get (model_tech m) cap ''ESS_power_cap'') (\<lambda>p.
     Inr (Le (Add c d) p))))"

definition ESS_max_const :: "model \<Rightarrow> int \<Rightarrow> error + constr" where
  "ESS_max_const m i =
     then_do (var_get (model_t m) ESS_SOC i) (\<lambda>soc.
     then_do (var_get (model_tech m) cap ''ESS_energy_cap'') (\<lambda>e.
     Inr (Le soc e)))"

definition ESS_min_const :: "model \<Rightarrow> int \<Rightarrow> error + constr" where
  "ESS_min_const m i =
     then_do (var_get (model_t m) ESS_SOC i) (\<lambda>soc.
     then_do (var_get (model_tech m) cap ''ESS_energy_cap'') (\<lambda>e.
     Inr (Ge soc (Mul (Num ESS_min_level) e))))"

definition SOC_const :: "model \<Rightarrow> int \<Rightarrow> error + constr" where
  "SOC_const m i =
     then_do (t_first m) (\<lambda>f.
     if i = f then
       then_do (var_get (model_t m) ESS_SOC i) (\<lambda>soc.
       then_do (t_last m) (\<lambda>l.
       then_do (var_get (model_t m) ESS_SOC l) (\<lambda>prev.
       then_do (var_get (model_t m) ESS_c i) (\<lambda>c.
       then_do (var_get (model_t m) ESS_d i) (\<lambda>d.
       Inr (Eq soc (Sub (Add prev (Mul c (Num ESS_eta_c))) (Div d (Num ESS_eta_d)))))))))
     else
       then_do (var_get (model_t m) ESS_SOC i) (\<lambda>soc.
       then_do (var_get (model_t m) ESS_SOC (i - 1)) (\<lambda>prev.
       then_do (var_get (model_t m) ESS_c i) (\<lambda>c.
       then_do (var_get (model_t m) ESS_d i) (\<lambda>d.
       Inr (Eq soc (Sub (Add prev (Mul c (Num ESS_eta_c))) (Div d (Num ESS_eta_d)))))))))"

subsection \<open>The instance (line 92)\<close>

text \<open>
  The instance holds what the declarations of lines 49 to 87 construct, in their order:
  the variables with their domains, the objective, and one constraint per hour for each
  of the five rules. An exception raised by a rule ends the construction.
  \<open>create_instance\<close> starts from a model whose sets and parameters hold their values;
  filling them from the data file comes before it and is \<open>create_instance_from_file\<close>
  below.
\<close>

record concrete_model =
  inst_vars :: "(var \<times> domain) list"
  inst_OBJ :: expr
  inst_match :: "constr list"
  inst_ESS_charge_disc_rate :: "constr list"
  inst_ESS_max :: "constr list"
  inst_ESS_min :: "constr list"
  inst_SOC_const :: "constr list"

definition declare_vars :: "model \<Rightarrow> (var \<times> domain) list" where
  "declare_vars m =
     map (\<lambda>k. (cap k, NonNegativeReals)) (model_tech m)
     @ map (\<lambda>i. (ESS_SOC i, NonNegativeReals)) (model_t m)
     @ map (\<lambda>i. (ESS_c i, NonNegativeReals)) (model_t m)
     @ map (\<lambda>i. (ESS_d i, NonNegativeReals)) (model_t m)
     @ map (\<lambda>i. (curt i, NonNegativeReals)) (model_t m)"

definition create_instance :: "model \<Rightarrow> error + concrete_model" where
  "create_instance m =
     then_do (obj_expression m) (\<lambda>obj.
     then_do (collect (match_const m) (model_t m)) (\<lambda>c1.
     then_do (collect (ESS_charge_disc_const m) (model_t m)) (\<lambda>c2.
     then_do (collect (ESS_max_const m) (model_t m)) (\<lambda>c3.
     then_do (collect (ESS_min_const m) (model_t m)) (\<lambda>c4.
     then_do (collect (SOC_const m) (model_t m)) (\<lambda>c5.
     Inr \<lparr>inst_vars = declare_vars m, inst_OBJ = obj, inst_match = c1,
          inst_ESS_charge_disc_rate = c2, inst_ESS_max = c3, inst_ESS_min = c4,
          inst_SOC_const = c5\<rparr>))))))"

definition constraints :: "concrete_model \<Rightarrow> constr list" where
  "constraints inst =
     inst_match inst @ inst_ESS_charge_disc_rate inst @ inst_ESS_max inst
     @ inst_ESS_min inst @ inst_SOC_const inst"

text \<open>
  An assignment of values to the variables is feasible for the instance when every
  variable lies in its domain and every constraint holds; it is feasible for a model
  when the model has an instance for which it is.
\<close>

definition lp_feasible :: "concrete_model \<Rightarrow> (var \<Rightarrow> real) \<Rightarrow> bool" where
  "lp_feasible inst a =
     (list_all (\<lambda>(v, D). in_domain D (a v)) (inst_vars inst)
      \<and> list_all (sat a) (constraints inst))"

definition feasible :: "model \<Rightarrow> (var \<Rightarrow> real) \<Rightarrow> bool" where
  "feasible m a = (case create_instance m of Inl e \<Rightarrow> False | Inr inst \<Rightarrow> lp_feasible inst a)"

definition objective_value :: "model \<Rightarrow> (var \<Rightarrow> real) \<Rightarrow> real option" where
  "objective_value m a =
     (case create_instance m of Inl e \<Rightarrow> None | Inr inst \<Rightarrow> Some (expr_value a (inst_OBJ inst)))"

text \<open>
  The solver minimises the objective (Pyomo's default sense) over the feasible
  assignments: an assignment is optimal when it is feasible and no feasible assignment
  has a smaller objective value.
\<close>

definition optimal :: "model \<Rightarrow> (var \<Rightarrow> real) \<Rightarrow> bool" where
  "optimal m a =
     (case create_instance m of
        Inl e \<Rightarrow> False
      | Inr inst \<Rightarrow>
          lp_feasible inst a
          \<and> (\<forall>b. lp_feasible inst b \<longrightarrow>
                 expr_value a (inst_OBJ inst) \<le> expr_value b (inst_OBJ inst)))"

subsection \<open>Loading the data (lines 43 to 46, and the data argument of line 92)\<close>

text \<open>A series of \<open>n\<close> values: the hours \<open>0\<close> to \<open>n - 1\<close> have a value, no other hour has.\<close>

definition series :: "int \<Rightarrow> (int \<Rightarrow> real) \<Rightarrow> int \<rightharpoonup> real" where
  "series n f = (\<lambda>i. if 0 \<le> i \<and> i < n then Some (f i) else None)"

text \<open>
  The three loads read one file: a row per hour, with the hour in column \<open>t\<close> and the
  three values in the columns \<open>wind\<close>, \<open>solar\<close> and \<open>demand\<close>. Each load fills its
  parameter and, through \<open>index = model.t\<close>, the time index, from the same rows.
  \<open>loaded_model n w s d\<close> is the model for a file of \<open>n\<close> rows that lists the hours
  \<open>0\<close> to \<open>n - 1\<close> in order, with the values \<open>w i\<close>, \<open>s i\<close>, \<open>d i\<close> at hour \<open>i\<close>:
  its time index is the \<open>n\<close> hours of the file, whatever \<open>n\<close> is, and nothing compares
  \<open>n\<close> with 8760. A file with no data row has nothing to construct from, and the
  construction ends in a RuntimeError.
\<close>

definition loaded_model ::
  "int \<Rightarrow> (int \<Rightarrow> real) \<Rightarrow> (int \<Rightarrow> real) \<Rightarrow> (int \<Rightarrow> real) \<Rightarrow> model" where
  "loaded_model n w s d =
     \<lparr>model_t = [0..n - 1], model_tech = tech_keys,
      model_wind = series n w, model_solar = series n s, model_demand = series n d,
      model_costs = map_of cost_table\<rparr>"

definition create_instance_from_file ::
  "int \<Rightarrow> (int \<Rightarrow> real) \<Rightarrow> (int \<Rightarrow> real) \<Rightarrow> (int \<Rightarrow> real) \<Rightarrow> error + concrete_model" where
  "create_instance_from_file n w s d =
     (if n < 1 then Inl ''RuntimeError'' else create_instance (loaded_model n w s d))"

subsection \<open>Scenarios\<close>

text \<open>
  A year of 8760 rows in which every hour has wind at half its rating, full sun and a
  demand of 100, and a dispatch for it that charges and discharges the storage in
  every hour.
\<close>

definition steady_year :: model where
  "steady_year =
     wind_solar_storage_model (series 8760 (\<lambda>i. 1 / 2)) (series 8760 (\<lambda>i. 1))
       (series 8760 (\<lambda>i. 100))"

definition churn :: "var \<Rightarrow> real" where
  "churn v =
     (case v of
        cap k \<Rightarrow> (if k = ''s_cap'' then 240 else if k = ''w_cap'' then 10
                  else if k = ''ESS_power_cap'' then 1855
                  else if k = ''ESS_energy_cap'' then 500 else 0)
      | ESS_SOC i \<Rightarrow> 300
      | ESS_c i \<Rightarrow> 1000
      | ESS_d i \<Rightarrow> 855
      | curt i \<Rightarrow> 0)"

text \<open>The same year from a file of 8759 rows, the hours 0 to 8758.\<close>

definition year_of_8759_rows :: "error + concrete_model" where
  "year_of_8759_rows = create_instance_from_file 8759 (\<lambda>i. 1 / 2) (\<lambda>i. 1) (\<lambda>i. 100)"

text \<open>
  The same year under a dearer cost table, and the plan that builds 100 of solar capacity
  and nothing else.
\<close>

definition dearer_year :: model where
  "dearer_year =
     steady_year\<lparr>model_costs :=
       map_of [(''s_cap'', 900000000), (''w_cap'', 1200000000),
               (''ESS_power_cap'', 250000000), (''ESS_energy_cap'', 150000000)]\<rparr>"

definition solar_only :: "var \<Rightarrow> real" where
  "solar_only v = (case v of cap k \<Rightarrow> (if k = ''s_cap'' then 100 else 0) | _ \<Rightarrow> 0)"

section \<open>Properties\<close>

subsection \<open>Sequencing and collection\<close>

lemma then_do_Inr [simp]: "then_do (Inr x) f = f x"
  by (simp add: then_do_def)

lemma then_do_Inl [simp]: "then_do (Inl e) f = Inl e"
  by (simp add: then_do_def)

lemma collect_map:
  "(\<And>x. x \<in> set xs \<Longrightarrow> f x = Inr (g x)) \<Longrightarrow> collect f xs = Inr (map g xs)"
  by (induction xs) auto

lemma collect_Inr_elem:
  "collect f xs = Inr ys \<Longrightarrow> x \<in> set xs \<Longrightarrow> \<exists>y \<in> set ys. f x = Inr y"
  by (induction xs arbitrary: ys) (auto split: sum.splits)

lemma expr_value_py_sum: "expr_value a (py_sum xs) = sum_list (map (expr_value a) xs)"
proof -
  have "expr_value a (foldl Add z xs) = expr_value a z + sum_list (map (expr_value a) xs)" for z
    by (induction xs arbitrary: z) auto
  then show ?thesis by (simp add: py_sum_def)
qed

lemma hour_in_t: "declared_sets m \<Longrightarrow> i \<in> set (model_t m) \<longleftrightarrow> 0 \<le> i \<and> i \<le> 8759"
  by (auto simp: declared_sets_def)

lemma var_get_mem: "k \<in> set idx \<Longrightarrow> var_get idx f k = Inr (Var (f k))"
  by (simp add: var_get_def)

lemma var_get_hour:
  "declared_sets m \<Longrightarrow> 0 \<le> i \<Longrightarrow> i \<le> 8759 \<Longrightarrow> var_get (model_t m) f i = Inr (Var (f i))"
  by (simp add: var_get_def declared_sets_def)

lemma var_get_cap:
  "declared_sets m \<Longrightarrow> k \<in> set tech_keys \<Longrightarrow> var_get (model_tech m) cap k = Inr (Var (cap k))"
  by (simp add: var_get_def declared_sets_def)

lemma tech_keys_mem:
  "''w_cap'' \<in> set tech_keys" "''s_cap'' \<in> set tech_keys"
  "''ESS_power_cap'' \<in> set tech_keys" "''ESS_energy_cap'' \<in> set tech_keys"
  by (simp_all add: tech_keys_def)

lemma t_cons: "[0..8759] = (0::int) # [1..8759]"
  by (subst upto_rec1) simp_all

lemma t_first_declared: "declared_sets m \<Longrightarrow> t_first m = Inr 0"
  by (simp add: t_first_def declared_sets_def t_cons)

lemma last_upto: "i \<le> j \<Longrightarrow> last [i..j] = j"
  by (simp add: upto_rec2)

lemma t_last_declared: "declared_sets m \<Longrightarrow> t_last m = Inr 8759"
proof -
  assume "declared_sets m"
  then have t: "model_t m = 0 # [1..8759]" by (simp only: declared_sets_def t_cons)
  have "last ((0::int) # [1..8759]) = last [0..8759]" by (simp only: t_cons)
  also have "\<dots> = 8759" by (rule last_upto) simp
  finally show ?thesis by (simp only: t_last_def t list.case)
qed

lemma match_const_declared:
  assumes "declared_sets m" "0 \<le> i" "i \<le> 8759"
  shows "match_const m i =
     (case model_solar m i of None \<Rightarrow> Inl ''ValueError'' | Some sv \<Rightarrow>
      (case model_wind m i of None \<Rightarrow> Inl ''ValueError'' | Some wv \<Rightarrow>
      (case model_demand m i of None \<Rightarrow> Inl ''ValueError'' | Some dv \<Rightarrow>
        Inr (Eq (Sub (Sub (Sub (Add (Add (Mul (Num sv) (Var (cap ''s_cap'')))
                                         (Mul (Num wv) (Var (cap ''w_cap''))))
                                    (Var (ESS_d i))) (Var (ESS_c i))) (Var (curt i))) (Num dv))
                (Num 0)))))"
  using assms
  by (simp add: match_const_def var_get_hour var_get_cap tech_keys_mem param_get_def hour_in_t
           split: option.splits)

lemma ESS_charge_disc_const_declared:
  assumes "declared_sets m" "0 \<le> i" "i \<le> 8759"
  shows "ESS_charge_disc_const m i =
     Inr (Le (Add (Var (ESS_c i)) (Var (ESS_d i))) (Var (cap ''ESS_power_cap'')))"
  using assms
  by (simp add: ESS_charge_disc_const_def var_get_hour var_get_cap tech_keys_mem)

lemma ESS_max_const_declared:
  assumes "declared_sets m" "0 \<le> i" "i \<le> 8759"
  shows "ESS_max_const m i = Inr (Le (Var (ESS_SOC i)) (Var (cap ''ESS_energy_cap'')))"
  using assms
  by (simp add: ESS_max_const_def var_get_hour var_get_cap tech_keys_mem)

lemma ESS_min_const_declared:
  assumes "declared_sets m" "0 \<le> i" "i \<le> 8759"
  shows "ESS_min_const m i =
     Inr (Ge (Var (ESS_SOC i)) (Mul (Num ESS_min_level) (Var (cap ''ESS_energy_cap''))))"
  using assms
  by (simp add: ESS_min_const_def var_get_hour var_get_cap tech_keys_mem)

lemma SOC_const_declared:
  assumes "declared_sets m" "0 \<le> i" "i \<le> 8759"
  shows "SOC_const m i =
     Inr (Eq (Var (ESS_SOC i))
             (Sub (Add (Var (ESS_SOC (if i = 0 then 8759 else i - 1)))
                       (Mul (Var (ESS_c i)) (Num ESS_eta_c)))
                  (Div (Var (ESS_d i)) (Num ESS_eta_d))))"
  using assms
  by (simp add: SOC_const_def t_first_declared t_last_declared var_get_hour)

lemma obj_expression_declared:
  assumes "declared_sets m" and "\<And>k. k \<in> set tech_keys \<Longrightarrow> model_costs m k = Some (c k)"
  shows "obj_expression m =
     Inr (Add (py_sum (map (\<lambda>k. Mul (Var (cap k)) (Num (c k))) tech_keys))
              (py_sum (map (\<lambda>t. Add (Mul (Var (ESS_d t)) (Num ESS_p_var_cost))
                                      (Mul (Var (curt t)) (Num curtailment_cost))) [0..8759])))"
proof -
  have t: "model_t m = [0..8759]" and k: "model_tech m = tech_keys"
    using assms(1) by (simp_all add: declared_sets_def)
  have 1: "collect (\<lambda>i. then_do (var_get (model_tech m) cap i) (\<lambda>c.
              then_do (param_get (model_tech m) (model_costs m) i) (\<lambda>k. Inr (Mul c (Num k)))))
            tech_keys = Inr (map (\<lambda>k. Mul (Var (cap k)) (Num (c k))) tech_keys)"
    by (rule collect_map) (simp add: var_get_mem param_get_def k assms(2))
  have 2: "collect (\<lambda>t. then_do (var_get (model_t m) ESS_d t) (\<lambda>d.
              then_do (var_get (model_t m) curt t) (\<lambda>cu.
              Inr (Add (Mul d (Num ESS_p_var_cost)) (Mul cu (Num curtailment_cost))))))
            [0..8759] = Inr (map (\<lambda>t. Add (Mul (Var (ESS_d t)) (Num ESS_p_var_cost))
                                      (Mul (Var (curt t)) (Num curtailment_cost))) [0..8759])"
    by (rule collect_map) (simp add: var_get_hour [OF assms(1)])
  show ?thesis
    unfolding obj_expression_def
    using 1 2 by (simp only: k t then_do_Inr)
qed

lemma collect_match_declared:
  assumes "declared_sets m"
    and "\<And>i. 0 \<le> i \<Longrightarrow> i \<le> 8759 \<Longrightarrow>
           model_solar m i = Some (s i) \<and> model_wind m i = Some (w i) \<and> model_demand m i = Some (d i)"
  shows "collect (match_const m) [0..8759] =
     Inr (map (\<lambda>i. Eq (Sub (Sub (Sub (Add (Add (Mul (Num (s i)) (Var (cap ''s_cap'')))
                                             (Mul (Num (w i)) (Var (cap ''w_cap''))))
                                    (Var (ESS_d i))) (Var (ESS_c i))) (Var (curt i))) (Num (d i)))
                (Num 0)) [0..8759])"
  by (rule collect_map) (simp add: match_const_declared [OF assms(1)] assms(2))

lemma create_instance_declared:
  assumes "declared_sets m"
    and "\<And>k. k \<in> set tech_keys \<Longrightarrow> model_costs m k = Some (c k)"
    and "\<And>i. 0 \<le> i \<Longrightarrow> i \<le> 8759 \<Longrightarrow>
           model_solar m i = Some (s i) \<and> model_wind m i = Some (w i) \<and> model_demand m i = Some (d i)"
  shows "create_instance m = Inr
     \<lparr>inst_vars = declare_vars m,
      inst_OBJ = Add (py_sum (map (\<lambda>k. Mul (Var (cap k)) (Num (c k))) tech_keys))
              (py_sum (map (\<lambda>t. Add (Mul (Var (ESS_d t)) (Num ESS_p_var_cost))
                                      (Mul (Var (curt t)) (Num curtailment_cost))) [0..8759])),
      inst_match = map (\<lambda>i. Eq (Sub (Sub (Sub (Add (Add (Mul (Num (s i)) (Var (cap ''s_cap'')))
                                             (Mul (Num (w i)) (Var (cap ''w_cap''))))
                                    (Var (ESS_d i))) (Var (ESS_c i))) (Var (curt i))) (Num (d i)))
                (Num 0)) [0..8759],
      inst_ESS_charge_disc_rate =
        map (\<lambda>i. Le (Add (Var (ESS_c i)) (Var (ESS_d i))) (Var (cap ''ESS_power_cap''))) [0..8759],
      inst_ESS_max = map (\<lambda>i. Le (Var (ESS_SOC i)) (Var (cap ''ESS_energy_cap''))) [0..8759],
      inst_ESS_min = map (\<lambda>i. Ge (Var (ESS_SOC i))
                                  (Mul (Num ESS_min_level) (Var (cap ''ESS_energy_cap'')))) [0..8759],
      inst_SOC_const = map (\<lambda>i. Eq (Var (ESS_SOC i))
             (Sub (Add (Var (ESS_SOC (if i = 0 then 8759 else i - 1)))
                       (Mul (Var (ESS_c i)) (Num ESS_eta_c)))
                  (Div (Var (ESS_d i)) (Num ESS_eta_d)))) [0..8759]\<rparr>"
proof -
  have t: "model_t m = [0..8759]"
    using assms(1) by (simp add: declared_sets_def)
  have 2: "collect (ESS_charge_disc_const m) [0..8759] = Inr (map (\<lambda>i. Le (Add (Var (ESS_c i)) (Var (ESS_d i))) (Var (cap ''ESS_power_cap''))) [0..8759])"
    by (rule collect_map) (simp add: ESS_charge_disc_const_declared [OF assms(1)])
  have 3: "collect (ESS_max_const m) [0..8759] = Inr (map (\<lambda>i. Le (Var (ESS_SOC i)) (Var (cap ''ESS_energy_cap''))) [0..8759])"
    by (rule collect_map) (simp add: ESS_max_const_declared [OF assms(1)])
  have 4: "collect (ESS_min_const m) [0..8759] = Inr (map (\<lambda>i. Ge (Var (ESS_SOC i))
                                  (Mul (Num ESS_min_level) (Var (cap ''ESS_energy_cap'')))) [0..8759])"
    by (rule collect_map) (simp add: ESS_min_const_declared [OF assms(1)])
  have 5: "collect (SOC_const m) [0..8759] = Inr (map (\<lambda>i. Eq (Var (ESS_SOC i))
             (Sub (Add (Var (ESS_SOC (if i = 0 then 8759 else i - 1)))
                       (Mul (Var (ESS_c i)) (Num ESS_eta_c)))
                  (Div (Var (ESS_d i)) (Num ESS_eta_d)))) [0..8759])"
    by (rule collect_map) (simp add: SOC_const_declared [OF assms(1)])
  show ?thesis
    unfolding create_instance_def t
    by (simp only: obj_expression_declared [OF assms(1,2)]
          collect_match_declared [OF assms(1,3)] 2 3 4 5 then_do_Inr)
qed

lemma feasible_iff:
  assumes "declared_sets m"
    and "\<And>k. k \<in> set tech_keys \<Longrightarrow> model_costs m k \<noteq> None"
    and "\<And>i. 0 \<le> i \<Longrightarrow> i \<le> 8759 \<Longrightarrow>
           model_solar m i = Some (s i) \<and> model_wind m i = Some (w i) \<and> model_demand m i = Some (d i)"
  shows "feasible m a \<longleftrightarrow>
     (\<forall>k \<in> set tech_keys. 0 \<le> a (cap k)) \<and>
     (\<forall>i \<in> {0..8759}. 0 \<le> a (ESS_SOC i)) \<and>
     (\<forall>i \<in> {0..8759}. 0 \<le> a (ESS_c i)) \<and>
     (\<forall>i \<in> {0..8759}. 0 \<le> a (ESS_d i)) \<and>
     (\<forall>i \<in> {0..8759}. 0 \<le> a (curt i)) \<and>
     (\<forall>i \<in> {0..8759}.
        s i * a (cap ''s_cap'') + w i * a (cap ''w_cap'') + a (ESS_d i) - a (ESS_c i)
            - a (curt i) - d i = 0) \<and>
     (\<forall>i \<in> {0..8759}. a (ESS_c i) + a (ESS_d i) \<le> a (cap ''ESS_power_cap'')) \<and>
     (\<forall>i \<in> {0..8759}. a (ESS_SOC i) \<le> a (cap ''ESS_energy_cap'')) \<and>
     (\<forall>i \<in> {0..8759}. ESS_min_level * a (cap ''ESS_energy_cap'') \<le> a (ESS_SOC i)) \<and>
     (\<forall>i \<in> {0..8759}. a (ESS_SOC i) = a (ESS_SOC (if i = 0 then 8759 else i - 1))
              + a (ESS_c i) * ESS_eta_c - a (ESS_d i) / ESS_eta_d)"
proof -
  have t: "model_t m = [0..8759]" and k: "model_tech m = tech_keys"
    using assms(1) by (simp_all add: declared_sets_def)
  have "\<And>k. k \<in> set tech_keys \<Longrightarrow> model_costs m k = Some (the (model_costs m k))"
    using assms(2) by auto
  note ci = create_instance_declared [of m "\<lambda>k. the (model_costs m k)" s w d,
      OF assms(1) this assms(3)]
  show ?thesis
    by (simp add: feasible_def ci lp_feasible_def constraints_def declare_vars_def t k
          list_all_iff ball_Un)
qed

lemma collect_Inr_rev:
  "collect f xs = Inr ys \<Longrightarrow> y \<in> set ys \<Longrightarrow> \<exists>x \<in> set xs. f x = Inr y"
  by (induction xs arbitrary: ys) (auto split: sum.splits)

lemma create_instance_Inr:
  assumes "create_instance m = Inr inst"
  shows "obj_expression m = Inr (inst_OBJ inst)"
    and "collect (match_const m) (model_t m) = Inr (inst_match inst)"
    and "collect (ESS_charge_disc_const m) (model_t m) = Inr (inst_ESS_charge_disc_rate inst)"
    and "collect (ESS_max_const m) (model_t m) = Inr (inst_ESS_max inst)"
    and "collect (ESS_min_const m) (model_t m) = Inr (inst_ESS_min inst)"
    and "collect (SOC_const m) (model_t m) = Inr (inst_SOC_const inst)"
    and "inst_vars inst = declare_vars m"
  using assms
  by (auto simp: create_instance_def then_do_def split: sum.splits)

lemma feasibleD:
  "feasible m a \<Longrightarrow> \<exists>inst. create_instance m = Inr inst \<and> lp_feasible inst a"
  by (auto simp: feasible_def split: sum.splits)

lemma lp_feasible_sat:
  "lp_feasible inst a \<Longrightarrow> c \<in> set (constraints inst) \<Longrightarrow> sat a c"
  by (simp add: lp_feasible_def list_all_iff)

lemma match_const_Inr:
  assumes "match_const m i = Inr c"
  shows "\<exists>sv wv dv. model_solar m i = Some sv \<and> model_wind m i = Some wv
           \<and> model_demand m i = Some dv
           \<and> c = Eq (Sub (Sub (Sub (Add (Add (Mul (Num sv) (Var (cap ''s_cap'')))
                                             (Mul (Num wv) (Var (cap ''w_cap''))))
                                    (Var (ESS_d i))) (Var (ESS_c i))) (Var (curt i))) (Num dv))
                (Num 0)"
  using assms
  by (auto simp: match_const_def then_do_def param_get_def var_get_def
           split: sum.splits if_splits option.splits)

lemma ESS_charge_disc_const_Inr:
  assumes "ESS_charge_disc_const m i = Inr c"
  shows "c = Le (Add (Var (ESS_c i)) (Var (ESS_d i))) (Var (cap ''ESS_power_cap''))"
  using assms
  by (auto simp: ESS_charge_disc_const_def then_do_def var_get_def split: sum.splits if_splits)

lemma ESS_max_const_Inr:
  assumes "ESS_max_const m i = Inr c"
  shows "c = Le (Var (ESS_SOC i)) (Var (cap ''ESS_energy_cap''))"
  using assms
  by (auto simp: ESS_max_const_def then_do_def var_get_def split: sum.splits if_splits)

lemma ESS_min_const_Inr:
  assumes "ESS_min_const m i = Inr c"
  shows "c = Ge (Var (ESS_SOC i)) (Mul (Num ESS_min_level) (Var (cap ''ESS_energy_cap'')))"
  using assms
  by (auto simp: ESS_min_const_def then_do_def var_get_def split: sum.splits if_splits)

lemma SOC_const_Inr:
  assumes "SOC_const m i = Inr c"
  shows "\<exists>p. c = Eq (Var (ESS_SOC i))
             (Sub (Add (Var (ESS_SOC p)) (Mul (Var (ESS_c i)) (Num ESS_eta_c)))
                  (Div (Var (ESS_d i)) (Num ESS_eta_d)))"
  using assms
  by (auto simp: SOC_const_def then_do_def var_get_def split: sum.splits if_splits)

lemma feasible_rule:
  assumes "feasible m a" and "i \<in> set (model_t m)"
  shows "\<exists>c1 c2 c3 c4 c5.
           match_const m i = Inr c1 \<and> sat a c1
         \<and> ESS_charge_disc_const m i = Inr c2 \<and> sat a c2
         \<and> ESS_max_const m i = Inr c3 \<and> sat a c3
         \<and> ESS_min_const m i = Inr c4 \<and> sat a c4
         \<and> SOC_const m i = Inr c5 \<and> sat a c5"
proof -
  from feasibleD [OF assms(1)] obtain inst
    where ci: "create_instance m = Inr inst" and f: "lp_feasible inst a" by blast
  note parts = create_instance_Inr [OF ci]
  have s: "sat a c" if "c \<in> set (constraints inst)" for c
    using f that by (rule lp_feasible_sat)
  from collect_Inr_elem [OF parts(2) assms(2)] obtain c1
    where 1: "match_const m i = Inr c1" "c1 \<in> set (inst_match inst)" by blast
  from collect_Inr_elem [OF parts(3) assms(2)] obtain c2
    where 2: "ESS_charge_disc_const m i = Inr c2" "c2 \<in> set (inst_ESS_charge_disc_rate inst)"
    by blast
  from collect_Inr_elem [OF parts(4) assms(2)] obtain c3
    where 3: "ESS_max_const m i = Inr c3" "c3 \<in> set (inst_ESS_max inst)" by blast
  from collect_Inr_elem [OF parts(5) assms(2)] obtain c4
    where 4: "ESS_min_const m i = Inr c4" "c4 \<in> set (inst_ESS_min inst)" by blast
  from collect_Inr_elem [OF parts(6) assms(2)] obtain c5
    where 5: "SOC_const m i = Inr c5" "c5 \<in> set (inst_SOC_const inst)" by blast
  have "sat a c1" "sat a c2" "sat a c3" "sat a c4" "sat a c5"
    using 1(2) 2(2) 3(2) 4(2) 5(2) by (auto intro!: s simp: constraints_def)
  with 1(1) 2(1) 3(1) 4(1) 5(1) show ?thesis by blast
qed

subsection \<open>The scenarios\<close>

lemma declared_sets_model [simp]: "declared_sets (wind_solar_storage_model w s d)"
  by (simp add: declared_sets_def wind_solar_storage_model_def)

lemma cost_table_covers: "k \<in> set tech_keys \<Longrightarrow> map_of cost_table k \<noteq> None"
  by (auto simp: tech_keys_def cost_table_def)

lemma series_hour: "0 \<le> i \<Longrightarrow> i \<le> 8759 \<Longrightarrow> series 8760 f i = Some (f i)"
  by (simp add: series_def)

lemma steady_year_fields:
  "declared_sets steady_year"
  "model_t steady_year = [0..8759]"
  "model_costs steady_year = map_of cost_table"
  "model_solar steady_year = series 8760 (\<lambda>i. 1)"
  "model_wind steady_year = series 8760 (\<lambda>i. 1 / 2)"
  "model_demand steady_year = series 8760 (\<lambda>i. 100)"
  by (simp_all add: steady_year_def) (simp_all add: wind_solar_storage_model_def)

lemma feasible_steady_year_churn: "feasible steady_year churn"
proof (subst feasible_iff [where s = "\<lambda>i. 1" and w = "\<lambda>i. 1 / 2" and d = "\<lambda>i. 100"])
  show "declared_sets steady_year"
    by (rule steady_year_fields)
  show "model_costs steady_year k \<noteq> None" if "k \<in> set tech_keys" for k
    using that by (simp add: steady_year_fields cost_table_covers)
  show "model_solar steady_year i = Some 1 \<and> model_wind steady_year i = Some (1 / 2)
          \<and> model_demand steady_year i = Some 100" if "0 \<le> i" "i \<le> 8759" for i
    using that by (simp add: steady_year_fields series_hour)
  have "\<forall>k \<in> set tech_keys. 0 \<le> churn (cap k)"
    by (simp add: churn_def)
  then show "(\<forall>k \<in> set tech_keys. 0 \<le> churn (cap k)) \<and>
     (\<forall>i \<in> {0..8759}. 0 \<le> churn (ESS_SOC i)) \<and>
     (\<forall>i \<in> {0..8759}. 0 \<le> churn (ESS_c i)) \<and>
     (\<forall>i \<in> {0..8759}. 0 \<le> churn (ESS_d i)) \<and>
     (\<forall>i \<in> {0..8759}. 0 \<le> churn (curt i)) \<and>
     (\<forall>i \<in> {0..8759}.
        1 * churn (cap ''s_cap'') + 1 / 2 * churn (cap ''w_cap'') + churn (ESS_d i)
          - churn (ESS_c i) - churn (curt i) - 100 = 0) \<and>
     (\<forall>i \<in> {0..8759}. churn (ESS_c i) + churn (ESS_d i) \<le> churn (cap ''ESS_power_cap'')) \<and>
     (\<forall>i \<in> {0..8759}. churn (ESS_SOC i) \<le> churn (cap ''ESS_energy_cap'')) \<and>
     (\<forall>i \<in> {0..8759}. ESS_min_level * churn (cap ''ESS_energy_cap'') \<le> churn (ESS_SOC i)) \<and>
     (\<forall>i \<in> {0..8759}. churn (ESS_SOC i) = churn (ESS_SOC (if i = 0 then 8759 else i - 1))
              + churn (ESS_c i) * ESS_eta_c - churn (ESS_d i) / ESS_eta_d)"
    by (simp add: churn_def ESS_min_level_def ESS_eta_c_def ESS_eta_d_def)
qed

lemma hour_0: "0 \<in> set (model_t steady_year)"
  by (simp add: steady_year_fields)

subsection \<open>Sums over the year\<close>

lemma cyclic_sum:
  fixes f :: "int \<Rightarrow> real"
  assumes "0 \<le> n"
  shows "(\<Sum>i = 0..n. f i - f (if i = 0 then n else i - 1)) = 0"
proof -
  have "(\<Sum>i = 0..n. f (if i = 0 then n else i - 1)) = (\<Sum>j = 0..n. f j)"
    by (rule sum.reindex_bij_witness [where i = "\<lambda>j. if j = n then 0 else j + 1"
          and j = "\<lambda>i. if i = 0 then n else i - 1"]) (use assms in auto)
  then show ?thesis by (simp add: sum_subtractf)
qed

lemma sum_list_hours: "sum_list (map f [0..8759]) = (\<Sum>i = 0..8759. f i)" for f :: "int \<Rightarrow> real"
  by (simp flip: sum_set_upto_conv_sum_list_int)

lemma collect_sum_list:
  assumes "collect f xs = Inr ys" and "\<And>x y. x \<in> set xs \<Longrightarrow> f x = Inr y \<Longrightarrow> h y = g x"
  shows "sum_list (map h ys) = (sum_list (map g xs) :: real)"
  using assms by (induction xs arbitrary: ys) (auto split: sum.splits)

subsection \<open>The objective\<close>

lemma model_costs_script:
  "k \<in> set tech_keys \<Longrightarrow>
     model_costs (wind_solar_storage_model w s d) k =
       Some (if k = ''w_cap'' then wind_cap_cost else if k = ''s_cap'' then solar_cap_cost
             else if k = ''ESS_power_cap'' then ESS_p_cap_cost else ESS_e_cap_cost)"
  by (auto simp: wind_solar_storage_model_def tech_keys_def cost_table_def)

lemma obj_expression_value:
  assumes "obj_expression m = Inr e"
  shows "expr_value a e =
           (\<Sum>k\<leftarrow>model_tech m. a (cap k) * the (model_costs m k))
           + (\<Sum>i\<leftarrow>model_t m. a (ESS_d i) * ESS_p_var_cost + a (curt i) * curtailment_cost)"
proof -
  let ?f = "\<lambda>i. then_do (var_get (model_tech m) cap i) (\<lambda>c.
              then_do (param_get (model_tech m) (model_costs m) i) (\<lambda>k. Inr (Mul c (Num k))))"
  let ?g = "\<lambda>t. then_do (var_get (model_t m) ESS_d t) (\<lambda>d.
              then_do (var_get (model_t m) curt t) (\<lambda>cu.
              Inr (Add (Mul d (Num ESS_p_var_cost)) (Mul cu (Num curtailment_cost)))))"
  from assms obtain capital operation
    where c: "collect ?f (model_tech m) = Inr capital"
      and ops: "collect ?g (model_t m) = Inr operation"
      and e: "e = Add (py_sum capital) (py_sum operation)"
    by (auto simp: obj_expression_def then_do_def split: sum.splits)
  have 1: "sum_list (map (expr_value a) capital)
             = (\<Sum>k\<leftarrow>model_tech m. a (cap k) * the (model_costs m k))"
    by (rule collect_sum_list [OF c])
      (auto simp: then_do_def var_get_def param_get_def split: sum.splits if_splits option.splits)
  have 2: "sum_list (map (expr_value a) operation)
             = (\<Sum>i\<leftarrow>model_t m. a (ESS_d i) * ESS_p_var_cost + a (curt i) * curtailment_cost)"
    by (rule collect_sum_list [OF ops])
      (auto simp: then_do_def var_get_def split: sum.splits if_splits)
  show ?thesis
    unfolding e by (simp only: expr_value.simps expr_value_py_sum 1 2)
qed

lemma priced_objective:
  assumes d: "declared_sets m" and i: "create_instance m = Inr inst"
    and costs: "model_costs m ''w_cap'' = Some cw" "model_costs m ''s_cap'' = Some cs"
      "model_costs m ''ESS_power_cap'' = Some cp" "model_costs m ''ESS_energy_cap'' = Some ce"
  shows "expr_value b (inst_OBJ inst) =
             b (cap ''w_cap'') * cw + b (cap ''s_cap'') * cs + b (cap ''ESS_power_cap'') * cp
             + b (cap ''ESS_energy_cap'') * ce
             + (\<Sum>i = 0..8759. b (ESS_d i) * 5000 + b (curt i) * 1000)"
proof -
  have t: "model_t m = [0..8759]" and k: "model_tech m = tech_keys"
    using d by (simp_all add: declared_sets_def)
  have "(\<Sum>k\<leftarrow>tech_keys. b (cap k) * the (model_costs m k))
          = b (cap ''w_cap'') * cw + b (cap ''s_cap'') * cs + b (cap ''ESS_power_cap'') * cp
             + b (cap ''ESS_energy_cap'') * ce"
    by (simp add: tech_keys_def costs)
  then show ?thesis
    by (simp only: obj_expression_value [OF create_instance_Inr(1) [OF i]] t k sum_list_hours
          ESS_p_var_cost_def curtailment_cost_def)
qed

subsection \<open>Shape of the constraints, and the cost table\<close>

lemma constraint_shape:
  assumes "create_instance m = Inr inst" and "c \<in> set (constraints inst)"
  shows "(\<exists>x y. c = Eq x y) \<or> (\<exists>x y z. c = Le (Add x y) z)
       \<or> (\<exists>v u. c = Le (Var v) (Var u)) \<or> (\<exists>v x y. c = Ge (Var v) (Mul x y))"
proof -
  note parts = create_instance_Inr [OF assms(1)]
  from assms(2) consider
      "c \<in> set (inst_match inst)" | "c \<in> set (inst_ESS_charge_disc_rate inst)"
    | "c \<in> set (inst_ESS_max inst)" | "c \<in> set (inst_ESS_min inst)"
    | "c \<in> set (inst_SOC_const inst)"
    by (auto simp: constraints_def)
  then show ?thesis
  proof cases
    case 1
    from collect_Inr_rev [OF parts(2) 1] obtain x where "match_const m x = Inr c" by blast
    from match_const_Inr [OF this] show ?thesis by auto
  next
    case 2
    from collect_Inr_rev [OF parts(3) 2] obtain x where "ESS_charge_disc_const m x = Inr c" by blast
    from ESS_charge_disc_const_Inr [OF this] show ?thesis by auto
  next
    case 3
    from collect_Inr_rev [OF parts(4) 3] obtain x where "ESS_max_const m x = Inr c" by blast
    from ESS_max_const_Inr [OF this] show ?thesis by auto
  next
    case 4
    from collect_Inr_rev [OF parts(5) 4] obtain x where "ESS_min_const m x = Inr c" by blast
    from ESS_min_const_Inr [OF this] show ?thesis by auto
  next
    case 5
    from collect_Inr_rev [OF parts(6) 5] obtain x where "SOC_const m x = Inr c" by blast
    from SOC_const_Inr [OF this] show ?thesis by auto
  qed
qed

lemma rules_ignore_costs:
  "match_const (m\<lparr>model_costs := c\<rparr>) = match_const m"
  "ESS_charge_disc_const (m\<lparr>model_costs := c\<rparr>) = ESS_charge_disc_const m"
  "ESS_max_const (m\<lparr>model_costs := c\<rparr>) = ESS_max_const m"
  "ESS_min_const (m\<lparr>model_costs := c\<rparr>) = ESS_min_const m"
  "SOC_const (m\<lparr>model_costs := c\<rparr>) = SOC_const m"
  "declare_vars (m\<lparr>model_costs := c\<rparr>) = declare_vars m"
  by (simp_all add: fun_eq_iff match_const_def ESS_charge_disc_const_def ESS_max_const_def
        ESS_min_const_def SOC_const_def declare_vars_def t_first_def t_last_def cong: if_cong)

lemma lp_feasible_ignores_costs:
  assumes "create_instance m = Inr inst" and "create_instance (m\<lparr>model_costs := c\<rparr>) = Inr inst'"
  shows "lp_feasible inst' b = lp_feasible inst b"
proof -
  note p = create_instance_Inr [OF assms(1)] and p' = create_instance_Inr [OF assms(2)]
  have "inst_vars inst' = inst_vars inst"
    using p(7) p'(7) by (simp add: rules_ignore_costs)
  moreover have "constraints inst' = constraints inst"
    using p(2-6) p'(2-6) by (simp add: rules_ignore_costs constraints_def)
  ultimately show ?thesis by (simp add: lp_feasible_def)
qed

lemma lp_feasible_cap_nonneg:
  assumes "create_instance m = Inr inst" and "lp_feasible inst a" and "k \<in> set (model_tech m)"
  shows "0 \<le> a (cap k)"
  using assms(2,3) unfolding lp_feasible_def create_instance_Inr(7) [OF assms(1)] declare_vars_def
  by (simp add: list_all_iff ball_Un)

subsection \<open>The other scenarios\<close>

lemma steady_year_costs:
  "model_costs steady_year ''w_cap'' = Some 1200000000"
  "model_costs steady_year ''s_cap'' = Some 800000000"
  "model_costs steady_year ''ESS_power_cap'' = Some 200000000"
  "model_costs steady_year ''ESS_energy_cap'' = Some 150000000"
  by (simp_all add: steady_year_fields cost_table_def solar_cap_cost_def wind_cap_cost_def
        ESS_p_cap_cost_def ESS_e_cap_cost_def)

lemma dearer_year_fields:
  "declared_sets dearer_year"
  "model_solar dearer_year = series 8760 (\<lambda>i. 1)"
  "model_wind dearer_year = series 8760 (\<lambda>i. 1 / 2)"
  "model_demand dearer_year = series 8760 (\<lambda>i. 100)"
  "model_costs dearer_year ''w_cap'' = Some 1200000000"
  "model_costs dearer_year ''s_cap'' = Some 900000000"
  "model_costs dearer_year ''ESS_power_cap'' = Some 250000000"
  "model_costs dearer_year ''ESS_energy_cap'' = Some 150000000"
  using steady_year_fields by (simp_all add: dearer_year_def declared_sets_def)

text \<open>
  In the steady year storage only loses energy, so solar and wind together must supply
  the demand of every hour; solar being the cheaper per unit delivered, building 100 of
  it and nothing else is optimal.
\<close>

lemma steady_supply_bound:
  fixes b :: "var \<Rightarrow> real" and S W :: real
  assumes B: "\<forall>i \<in> {0..8759}. 1 * S + 1 / 2 * W + b (ESS_d i) - b (ESS_c i) - b (curt i) - 100 = 0"
    and R: "\<forall>i \<in> {0..8759}. b (ESS_SOC i) = b (ESS_SOC (if i = 0 then 8759 else i - 1))
              + b (ESS_c i) * ESS_eta_c - b (ESS_d i) / ESS_eta_d"
    and c0: "\<forall>i \<in> {0..8759}. 0 \<le> b (ESS_c i)"
    and u0: "\<forall>i \<in> {0..8759}. 0 \<le> b (curt i)"
  shows "100 \<le> S + W / 2"
proof -
  define C where "C = (\<Sum>i = 0..8759. b (ESS_c i))"
  define D where "D = (\<Sum>i = 0..8759. b (ESS_d i))"
  define U where "U = (\<Sum>i = 0..8759. b (curt i))"
  have "(\<Sum>i = 0..8759. b (ESS_c i) * ESS_eta_c - b (ESS_d i) / ESS_eta_d)
          = (\<Sum>i = 0..8759. b (ESS_SOC i) - b (ESS_SOC (if i = 0 then 8759 else i - 1)))"
    by (rule sum.cong) (use R in auto)
  also have "\<dots> = 0"
    by (rule cyclic_sum) simp
  finally have 1: "C * ESS_eta_c - D / ESS_eta_d = 0"
    by (simp add: C_def D_def sum_subtractf sum_distrib_right sum_divide_distrib)
  have "(\<Sum>i = 0..8759. b (ESS_c i) - b (ESS_d i) + b (curt i))
          = (\<Sum>i = 0..8759::int. S + W / 2 - 100)"
    by (rule sum.cong) (use B in \<open>auto simp: algebra_simps\<close>)
  then have 2: "C - D + U = 8760 * (S + W / 2 - 100)"
    by (simp add: C_def D_def U_def sum_subtractf sum.distrib)
  have 3: "0 \<le> C" "0 \<le> U"
    unfolding C_def U_def using c0 u0 by (auto intro!: sum_nonneg)
  from 1 have "D = C * (855 / 1000)"
    by (simp add: ESS_eta_c_def ESS_eta_d_def field_simps)
  with 2 3 show ?thesis by simp
qed

lemma steady_feasible_iff:
  assumes d: "declared_sets m"
    and data: "model_solar m = series 8760 (\<lambda>i. 1)" "model_wind m = series 8760 (\<lambda>i. 1 / 2)"
      "model_demand m = series 8760 (\<lambda>i. 100)"
    and c: "\<forall>k \<in> set tech_keys. model_costs m k \<noteq> None"
  shows "feasible m b \<longleftrightarrow>
     (\<forall>k \<in> set tech_keys. 0 \<le> b (cap k)) \<and>
     (\<forall>i \<in> {0..8759}. 0 \<le> b (ESS_SOC i)) \<and>
     (\<forall>i \<in> {0..8759}. 0 \<le> b (ESS_c i)) \<and>
     (\<forall>i \<in> {0..8759}. 0 \<le> b (ESS_d i)) \<and>
     (\<forall>i \<in> {0..8759}. 0 \<le> b (curt i)) \<and>
     (\<forall>i \<in> {0..8759}.
        1 * b (cap ''s_cap'') + 1 / 2 * b (cap ''w_cap'') + b (ESS_d i) - b (ESS_c i)
            - b (curt i) - 100 = 0) \<and>
     (\<forall>i \<in> {0..8759}. b (ESS_c i) + b (ESS_d i) \<le> b (cap ''ESS_power_cap'')) \<and>
     (\<forall>i \<in> {0..8759}. b (ESS_SOC i) \<le> b (cap ''ESS_energy_cap'')) \<and>
     (\<forall>i \<in> {0..8759}. ESS_min_level * b (cap ''ESS_energy_cap'') \<le> b (ESS_SOC i)) \<and>
     (\<forall>i \<in> {0..8759}. b (ESS_SOC i) = b (ESS_SOC (if i = 0 then 8759 else i - 1))
              + b (ESS_c i) * ESS_eta_c - b (ESS_d i) / ESS_eta_d)"
proof (rule feasible_iff [where s = "\<lambda>i. 1" and w = "\<lambda>i. 1 / 2" and d = "\<lambda>i. 100"])
  show "declared_sets m" by (rule d)
  show "model_costs m k \<noteq> None" if "k \<in> set tech_keys" for k
    using that c by blast
  show "model_solar m i = Some 1 \<and> model_wind m i = Some (1 / 2) \<and> model_demand m i = Some 100"
    if "0 \<le> i" "i \<le> 8759" for i
    using that by (simp add: data series_hour)
qed

lemma steady_cost_bound:
  fixes b :: "var \<Rightarrow> real"
  assumes s: "100 \<le> b (cap ''s_cap'') + b (cap ''w_cap'') / 2"
    and n: "0 \<le> b (cap ''w_cap'')" "0 \<le> b (cap ''ESS_power_cap'')" "0 \<le> b (cap ''ESS_energy_cap'')"
    and o: "0 \<le> (\<Sum>i = 0..8759. b (ESS_d i) * 5000 + b (curt i) * 1000)"
    and sign: "0 \<le> cp" "0 \<le> ce" "0 \<le> cs" "cs \<le> 2 * cw"
  shows "100 * cs \<le> b (cap ''w_cap'') * cw + b (cap ''s_cap'') * cs + b (cap ''ESS_power_cap'') * cp
             + b (cap ''ESS_energy_cap'') * ce
             + (\<Sum>i = 0..8759. b (ESS_d i) * 5000 + b (curt i) * 1000)"
proof -
  have 1: "0 \<le> b (cap ''ESS_power_cap'') * cp" "0 \<le> b (cap ''ESS_energy_cap'') * ce"
    using n sign by simp_all
  have 2: "b (cap ''w_cap'') * (cs / 2) \<le> b (cap ''w_cap'') * cw"
    using n(1) sign(4) by (intro mult_left_mono) simp_all
  have 3: "100 * cs \<le> (b (cap ''s_cap'') + b (cap ''w_cap'') / 2) * cs"
    using s sign(3) by (intro mult_right_mono) simp_all
  have "(b (cap ''s_cap'') + b (cap ''w_cap'') / 2) * cs
          = b (cap ''s_cap'') * cs + b (cap ''w_cap'') * (cs / 2)"
    by (simp add: algebra_simps)
  with 1 2 3 o show ?thesis by linarith
qed

lemma solar_only_optimal:
  assumes d: "declared_sets m"
    and data: "model_solar m = series 8760 (\<lambda>i. 1)" "model_wind m = series 8760 (\<lambda>i. 1 / 2)"
      "model_demand m = series 8760 (\<lambda>i. 100)"
    and costs: "model_costs m ''w_cap'' = Some cw" "model_costs m ''s_cap'' = Some cs"
      "model_costs m ''ESS_power_cap'' = Some cp" "model_costs m ''ESS_energy_cap'' = Some ce"
    and sign: "0 \<le> cp" "0 \<le> ce" "0 \<le> cs" "cs \<le> 2 * cw"
  shows "optimal m solar_only \<and> objective_value m solar_only = Some (100 * cs)"
proof -
  have c: "\<forall>k \<in> set tech_keys. model_costs m k \<noteq> None"
    using costs by (simp add: tech_keys_def)
  note fi = steady_feasible_iff [OF d data c]
  have f: "feasible m solar_only"
    unfolding fi by (simp add: solar_only_def)
  from feasibleD [OF f] obtain inst
    where i: "create_instance m = Inr inst" and lf: "lp_feasible inst solar_only" by blast
  note v = priced_objective [OF d i costs]
  have v0: "expr_value solar_only (inst_OBJ inst) = 100 * cs"
    unfolding v by (simp add: solar_only_def)
  have "100 * cs \<le> expr_value b (inst_OBJ inst)" if "lp_feasible inst b" for b
  proof -
    from that i have "feasible m b"
      by (simp add: feasible_def)
    then have rr: "(\<forall>k \<in> set tech_keys. 0 \<le> b (cap k)) \<and>
     (\<forall>i \<in> {0..8759}. 0 \<le> b (ESS_SOC i)) \<and>
     (\<forall>i \<in> {0..8759}. 0 \<le> b (ESS_c i)) \<and>
     (\<forall>i \<in> {0..8759}. 0 \<le> b (ESS_d i)) \<and>
     (\<forall>i \<in> {0..8759}. 0 \<le> b (curt i)) \<and>
     (\<forall>i \<in> {0..8759}.
        1 * b (cap ''s_cap'') + 1 / 2 * b (cap ''w_cap'') + b (ESS_d i) - b (ESS_c i)
            - b (curt i) - 100 = 0) \<and>
     (\<forall>i \<in> {0..8759}. b (ESS_c i) + b (ESS_d i) \<le> b (cap ''ESS_power_cap'')) \<and>
     (\<forall>i \<in> {0..8759}. b (ESS_SOC i) \<le> b (cap ''ESS_energy_cap'')) \<and>
     (\<forall>i \<in> {0..8759}. ESS_min_level * b (cap ''ESS_energy_cap'') \<le> b (ESS_SOC i)) \<and>
     (\<forall>i \<in> {0..8759}. b (ESS_SOC i) = b (ESS_SOC (if i = 0 then 8759 else i - 1))
              + b (ESS_c i) * ESS_eta_c - b (ESS_d i) / ESS_eta_d)"
      unfolding fi .
    have r:
      "\<forall>k \<in> set tech_keys. 0 \<le> b (cap k)"
      "\<forall>i \<in> {0..8759}. 0 \<le> b (ESS_c i)"
      "\<forall>i \<in> {0..8759}. 0 \<le> b (ESS_d i)"
      "\<forall>i \<in> {0..8759}. 0 \<le> b (curt i)"
      "\<forall>i \<in> {0..8759}.
        1 * b (cap ''s_cap'') + 1 / 2 * b (cap ''w_cap'') + b (ESS_d i) - b (ESS_c i)
            - b (curt i) - 100 = 0"
      "\<forall>i \<in> {0..8759}. b (ESS_SOC i) = b (ESS_SOC (if i = 0 then 8759 else i - 1))
              + b (ESS_c i) * ESS_eta_c - b (ESS_d i) / ESS_eta_d"
      using rr by simp_all
    from r(1) have n: "0 \<le> b (cap ''w_cap'')"
      "0 \<le> b (cap ''ESS_power_cap'')" "0 \<le> b (cap ''ESS_energy_cap'')"
      by (simp_all add: tech_keys_def)
    have s: "100 \<le> b (cap ''s_cap'') + b (cap ''w_cap'') / 2"
      by (rule steady_supply_bound [OF r(5) r(6) r(2) r(4)])
    have o: "0 \<le> (\<Sum>i = 0..8759. b (ESS_d i) * 5000 + b (curt i) * 1000)"
      using r(3,4) by (intro sum_nonneg) simp
    show ?thesis
      unfolding v by (rule steady_cost_bound [OF s n o sign])
  qed
  then have "optimal m solar_only"
    by (simp add: optimal_def i lf v0)
  moreover have "objective_value m solar_only = Some (100 * cs)"
    by (simp add: objective_value_def i v0)
  ultimately show ?thesis ..
qed

lemma steady_year_optimum:
  "optimal steady_year solar_only \<and> objective_value steady_year solar_only = Some (100 * 800000000)"
  by (rule solar_only_optimal [OF steady_year_fields(1,4,5,6) steady_year_costs]) simp_all

lemma dearer_year_optimum:
  "optimal dearer_year solar_only \<and> objective_value dearer_year solar_only = Some (100 * 900000000)"
  by (rule solar_only_optimal [OF dearer_year_fields]) simp_all

subsection \<open>Models loaded from a file\<close>

text \<open>
  A file of \<open>n\<close> rows, \<open>n\<close> at least 1, gives a model whose first hour is 0 and whose last
  hour is \<open>n - 1\<close>; every rule finds its data and its variables at every hour, so that
  the instance is built. The file of 8760 rows gives the model of the declared index.
\<close>

lemma obj_expression_succeeds:
  assumes "\<forall>k \<in> set (model_tech m). model_costs m k \<noteq> None"
  shows "\<exists>e. obj_expression m = Inr e"
proof -
  have 1: "collect (\<lambda>i. then_do (var_get (model_tech m) cap i) (\<lambda>c.
              then_do (param_get (model_tech m) (model_costs m) i) (\<lambda>k. Inr (Mul c (Num k)))))
            (model_tech m)
           = Inr (map (\<lambda>k. Mul (Var (cap k)) (Num (the (model_costs m k)))) (model_tech m))"
    by (rule collect_map) (use assms in \<open>auto simp: var_get_mem param_get_def\<close>)
  have 2: "collect (\<lambda>t. then_do (var_get (model_t m) ESS_d t) (\<lambda>d.
              then_do (var_get (model_t m) curt t) (\<lambda>cu.
              Inr (Add (Mul d (Num ESS_p_var_cost)) (Mul cu (Num curtailment_cost))))))
            (model_t m)
           = Inr (map (\<lambda>t. Add (Mul (Var (ESS_d t)) (Num ESS_p_var_cost))
                                 (Mul (Var (curt t)) (Num curtailment_cost))) (model_t m))"
    by (rule collect_map) (simp add: var_get_mem)
  show ?thesis
    unfolding obj_expression_def by (simp only: 1 2 then_do_Inr) blast
qed

lemma loaded_model_fields:
  "model_t (loaded_model n w s d) = [0..n - 1]"
  "model_tech (loaded_model n w s d) = tech_keys"
  "model_wind (loaded_model n w s d) = series n w"
  "model_solar (loaded_model n w s d) = series n s"
  "model_demand (loaded_model n w s d) = series n d"
  "model_costs (loaded_model n w s d) = map_of cost_table"
  by (simp_all add: loaded_model_def)

lemma loaded_model_first_last:
  assumes "1 \<le> n"
  shows "t_first (loaded_model n w s d) = Inr 0" "t_last (loaded_model n w s d) = Inr (n - 1)"
proof -
  have c: "[0..n - 1] = 0 # [1..n - 1]"
    using assms by (subst upto_rec1) simp_all
  show "t_first (loaded_model n w s d) = Inr 0"
    by (simp add: t_first_def loaded_model_fields c)
  have "last (0 # [1..n - 1]) = last [0..n - 1]" by (simp only: c)
  also have "\<dots> = n - 1" using assms by (intro last_upto) simp
  finally show "t_last (loaded_model n w s d) = Inr (n - 1)"
    by (simp only: t_last_def loaded_model_fields c list.case)
qed

lemma create_instance_loaded:
  assumes "1 \<le> n"
  shows "\<exists>obj. create_instance (loaded_model n w s d) = Inr
     \<lparr>inst_vars = declare_vars (loaded_model n w s d),
      inst_OBJ = obj,
      inst_match = map (\<lambda>i. Eq (Sub (Sub (Sub (Add (Add (Mul (Num (s i)) (Var (cap ''s_cap'')))
                                             (Mul (Num (w i)) (Var (cap ''w_cap''))))
                                    (Var (ESS_d i))) (Var (ESS_c i))) (Var (curt i))) (Num (d i)))
                (Num 0)) [0..n - 1],
      inst_ESS_charge_disc_rate =
        map (\<lambda>i. Le (Add (Var (ESS_c i)) (Var (ESS_d i))) (Var (cap ''ESS_power_cap''))) [0..n - 1],
      inst_ESS_max = map (\<lambda>i. Le (Var (ESS_SOC i)) (Var (cap ''ESS_energy_cap''))) [0..n - 1],
      inst_ESS_min = map (\<lambda>i. Ge (Var (ESS_SOC i))
                                  (Mul (Num ESS_min_level) (Var (cap ''ESS_energy_cap'')))) [0..n - 1],
      inst_SOC_const = map (\<lambda>i. Eq (Var (ESS_SOC i))
             (Sub (Add (Var (ESS_SOC (if i = 0 then n - 1 else i - 1)))
                       (Mul (Var (ESS_c i)) (Num ESS_eta_c)))
                  (Div (Var (ESS_d i)) (Num ESS_eta_d)))) [0..n - 1]\<rparr>"
proof -
  let ?m = "loaded_model n w s d"
  note f = loaded_model_fields [of n w s d]
  have "\<forall>k \<in> set (model_tech ?m). model_costs ?m k \<noteq> None"
    by (simp add: f cost_table_covers)
  from obj_expression_succeeds [OF this] obtain obj where o: "obj_expression ?m = Inr obj"
    by blast
  have 1: "collect (match_const ?m) [0..n - 1] = Inr (map (\<lambda>i. Eq (Sub (Sub (Sub (Add (Add (Mul (Num (s i)) (Var (cap ''s_cap'')))
                                             (Mul (Num (w i)) (Var (cap ''w_cap''))))
                                    (Var (ESS_d i))) (Var (ESS_c i))) (Var (curt i))) (Num (d i)))
                (Num 0)) [0..n - 1])"
    by (rule collect_map)
      (simp add: match_const_def f var_get_mem tech_keys_mem param_get_def series_def)
  have 2: "collect (ESS_charge_disc_const ?m) [0..n - 1] = Inr (map (\<lambda>i. Le (Add (Var (ESS_c i)) (Var (ESS_d i))) (Var (cap ''ESS_power_cap''))) [0..n - 1])"
    by (rule collect_map) (simp add: ESS_charge_disc_const_def f var_get_mem tech_keys_mem)
  have 3: "collect (ESS_max_const ?m) [0..n - 1] = Inr (map (\<lambda>i. Le (Var (ESS_SOC i)) (Var (cap ''ESS_energy_cap''))) [0..n - 1])"
    by (rule collect_map) (simp add: ESS_max_const_def f var_get_mem tech_keys_mem)
  have 4: "collect (ESS_min_const ?m) [0..n - 1] = Inr (map (\<lambda>i. Ge (Var (ESS_SOC i))
                                  (Mul (Num ESS_min_level) (Var (cap ''ESS_energy_cap'')))) [0..n - 1])"
    by (rule collect_map) (simp add: ESS_min_const_def f var_get_mem tech_keys_mem)
  have 5: "collect (SOC_const ?m) [0..n - 1] = Inr (map (\<lambda>i. Eq (Var (ESS_SOC i))
             (Sub (Add (Var (ESS_SOC (if i = 0 then n - 1 else i - 1)))
                       (Mul (Var (ESS_c i)) (Num ESS_eta_c)))
                  (Div (Var (ESS_d i)) (Num ESS_eta_d)))) [0..n - 1])"
    by (rule collect_map)
      (use assms in \<open>simp add: SOC_const_def loaded_model_first_last f(1) var_get_mem\<close>)
  show ?thesis
    unfolding create_instance_def f(1)
    by (simp only: o 1 2 3 4 5 then_do_Inr) blast
qed

lemma length_hours: "1 \<le> n \<Longrightarrow> length [0..n - 1] = nat n"
  by simp

lemma length_declare_vars_loaded:
  "1 \<le> n \<Longrightarrow> length (declare_vars (loaded_model n w s d)) = 4 + 4 * nat n"
  by (simp add: declare_vars_def loaded_model_fields tech_keys_def)

lemma loaded_model_8760:
  "loaded_model 8760 w s d =
     wind_solar_storage_model (series 8760 w) (series 8760 s) (series 8760 d)"
  by (simp add: loaded_model_def wind_solar_storage_model_def)

text \<open>
  The cost table of line 40 has a cost for each of the four technologies of line 34 and
  for nothing else.
\<close>

lemma cost_table_keys: "dom (map_of cost_table) = set tech_keys"
  by (auto simp: cost_table_def tech_keys_def dom_def)

section \<open>The claims\<close>

text \<open>
  C1. Power balance. In every feasible assignment and for every hour of the time index,
  the balance rule has data for the hour and yields the equality constraint
  \<open>solar[i]*cap[s_cap] + wind[i]*cap[w_cap] + ESS_d[i] - ESS_c[i] - curt[i] - demand[i] == 0\<close>,
  whose left side holds these terms and no other (no slack, no unserved demand), and the
  assignment satisfies it exactly. This holds for any time index, the 8760 hours of the
  declared one among them.
\<close>

theorem match_const_power_balance:
  assumes "feasible m a" and "i \<in> set (model_t m)"
  shows "\<exists>sv wv dv.
           model_solar m i = Some sv \<and> model_wind m i = Some wv \<and> model_demand m i = Some dv
         \<and> match_const m i =
             Inr (Eq (Sub (Sub (Sub (Add (Add (Mul (Num sv) (Var (cap ''s_cap'')))
                                             (Mul (Num wv) (Var (cap ''w_cap''))))
                                    (Var (ESS_d i))) (Var (ESS_c i))) (Var (curt i))) (Num dv))
                     (Num 0))
         \<and> sv * a (cap ''s_cap'') + wv * a (cap ''w_cap'') + a (ESS_d i) - a (ESS_c i)
             - a (curt i) - dv = 0"
proof -
  from feasible_rule [OF assms] obtain c
    where c: "match_const m i = Inr c" "sat a c" by blast
  from match_const_Inr [OF c(1)] c show ?thesis by auto
qed

text \<open>
  The steady year under the dispatch \<open>churn\<close>, at hour 0:
  \<open>1 * 240 + 1/2 * 10 + 855 - 1000 - 0 - 100 = 0\<close>.
\<close>

theorem match_const_power_balance_witness:
  "feasible steady_year churn \<and> 0 \<in> set (model_t steady_year)
   \<and> model_solar steady_year 0 = Some 1 \<and> model_wind steady_year 0 = Some (1 / 2)
   \<and> model_demand steady_year 0 = Some 100
   \<and> 1 * churn (cap ''s_cap'') + 1 / 2 * churn (cap ''w_cap'') + churn (ESS_d 0)
       - churn (ESS_c 0) - churn (curt 0) - 100 = 0"
proof -
  have d: "model_solar steady_year 0 = Some 1" "model_wind steady_year 0 = Some (1 / 2)"
    "model_demand steady_year 0 = Some 100"
    by (simp_all add: steady_year_fields series_hour)
  from match_const_power_balance [OF feasible_steady_year_churn hour_0]
  obtain sv wv dv where v:
    "model_solar steady_year 0 = Some sv" "model_wind steady_year 0 = Some wv"
    "model_demand steady_year 0 = Some dv"
    and e: "sv * churn (cap ''s_cap'') + wv * churn (cap ''w_cap'') + churn (ESS_d 0)
       - churn (ESS_c 0) - churn (curt 0) - dv = 0"
    by blast
  from v d have "sv = 1" "wv = 1 / 2" "dv = 100"
    by simp_all
  with e have "1 * churn (cap ''s_cap'') + 1 / 2 * churn (cap ''w_cap'') + churn (ESS_d 0)
       - churn (ESS_c 0) - churn (curt 0) - 100 = 0"
    by (simp only:)
  with d feasible_steady_year_churn hour_0 show ?thesis by blast
qed

text \<open>
  C2. State-of-charge recursion. With the declared 8760 hours, the rule yields for every
  hour \<open>i\<close> the equality \<open>ESS_SOC[i] == ESS_SOC[prev] + ESS_c[i]*0.95 - ESS_d[i]/0.9\<close>,
  where \<open>prev\<close> is hour \<open>i - 1\<close> for every hour after the first and the last hour,
  8759, for the first hour, 0; \<open>prev\<close> is an hour of the index, and every feasible
  assignment satisfies the equality.
\<close>

theorem SOC_const_cyclic_recursion:
  assumes "declared_sets m" and "i \<in> set (model_t m)"
  shows "\<exists>c. SOC_const m i = Inr c
           \<and> c = Eq (Var (ESS_SOC i))
                   (Sub (Add (Var (ESS_SOC (if i = 0 then 8759 else i - 1)))
                             (Mul (Var (ESS_c i)) (Num ESS_eta_c)))
                        (Div (Var (ESS_d i)) (Num ESS_eta_d)))
           \<and> (\<forall>a. sat a c \<longleftrightarrow>
                  a (ESS_SOC i) = a (ESS_SOC (if i = 0 then 8759 else i - 1))
                                   + a (ESS_c i) * 0.95 - a (ESS_d i) / 0.9)
           \<and> (\<forall>a. feasible m a \<longrightarrow> sat a c)
           \<and> (if i = 0 then 8759 else i - 1) \<in> set (model_t m)
           \<and> t_first m = Inr 0 \<and> t_last m = Inr 8759
           \<and> ESS_eta_c = 0.95 \<and> ESS_eta_d = 0.9"
proof -
  let ?c = "Eq (Var (ESS_SOC i))
                   (Sub (Add (Var (ESS_SOC (if i = 0 then 8759 else i - 1)))
                             (Mul (Var (ESS_c i)) (Num ESS_eta_c)))
                        (Div (Var (ESS_d i)) (Num ESS_eta_d)))"
  from assms have i: "0 \<le> i" "i \<le> 8759"
    by (simp_all add: hour_in_t)
  have c: "SOC_const m i = Inr ?c"
    by (rule SOC_const_declared [OF assms(1) i])
  have s: "sat a ?c \<longleftrightarrow>
                  a (ESS_SOC i) = a (ESS_SOC (if i = 0 then 8759 else i - 1))
                                   + a (ESS_c i) * 0.95 - a (ESS_d i) / 0.9" for a
    by (simp add: ESS_eta_c_def ESS_eta_d_def)
  have f: "sat a ?c" if "feasible m a" for a
    using feasible_rule [OF that assms(2)] c by auto
  have p: "(if i = 0 then 8759 else i - 1) \<in> set (model_t m)"
    using i assms(1) by (simp add: hour_in_t)
  have e: "ESS_eta_c = 0.95" "ESS_eta_d = 0.9"
    by (simp_all add: ESS_eta_c_def ESS_eta_d_def)
  from c s f p e t_first_declared [OF assms(1)] t_last_declared [OF assms(1)]
  show ?thesis by blast
qed

text \<open>
  The steady year at its first hour, whose predecessor is hour 8759:
  \<open>300 = 300 + 1000 * 0.95 - 855 / 0.9\<close>.
\<close>

theorem SOC_const_cyclic_recursion_witness:
  "declared_sets steady_year \<and> 0 \<in> set (model_t steady_year) \<and> feasible steady_year churn
   \<and> SOC_const steady_year 0 =
        Inr (Eq (Var (ESS_SOC 0))
                (Sub (Add (Var (ESS_SOC 8759)) (Mul (Var (ESS_c 0)) (Num ESS_eta_c)))
                     (Div (Var (ESS_d 0)) (Num ESS_eta_d))))
   \<and> churn (ESS_SOC 0) = churn (ESS_SOC 8759) + churn (ESS_c 0) * 0.95 - churn (ESS_d 0) / 0.9
   \<and> 8759 \<in> set (model_t steady_year)"
proof -
  from SOC_const_cyclic_recursion [OF steady_year_fields(1) hour_0]
  obtain c where c: "SOC_const steady_year 0 = Inr c"
    "c = Eq (Var (ESS_SOC 0))
                (Sub (Add (Var (ESS_SOC 8759)) (Mul (Var (ESS_c 0)) (Num ESS_eta_c)))
                     (Div (Var (ESS_d 0)) (Num ESS_eta_d)))"
    and s: "\<And>a. sat a c \<longleftrightarrow>
               a (ESS_SOC 0) = a (ESS_SOC 8759) + a (ESS_c 0) * 0.95 - a (ESS_d 0) / 0.9"
    and f: "\<And>a. feasible steady_year a \<Longrightarrow> sat a c"
    and p: "8759 \<in> set (model_t steady_year)"
    by auto
  from f [OF feasible_steady_year_churn] s
  have "churn (ESS_SOC 0) = churn (ESS_SOC 8759) + churn (ESS_c 0) * 0.95 - churn (ESS_d 0) / 0.9"
    by blast
  with c p steady_year_fields(1) hour_0 feasible_steady_year_churn show ?thesis
    by blast
qed

text \<open>
  C3. Objective. The objective rule of the script's model succeeds, whatever the data, and
  the value of its expression under any assignment is the capacity of each of the four
  technologies times its capital cost, plus, summed over the 8760 hours, discharge times
  the variable discharge cost plus curtailment times the curtailment cost: no other term,
  and the capital costs enter as the constants of lines 14 to 17, not annualised. The
  objective of every instance of the model is this expression.
\<close>

theorem obj_expression_total_cost:
  "\<exists>e. obj_expression (wind_solar_storage_model w s d) = Inr e
     \<and> (\<forall>a. expr_value a e =
            a (cap ''w_cap'') * wind_cap_cost + a (cap ''s_cap'') * solar_cap_cost
            + a (cap ''ESS_power_cap'') * ESS_p_cap_cost
            + a (cap ''ESS_energy_cap'') * ESS_e_cap_cost
            + (\<Sum>i = 0..8759. a (ESS_d i) * ESS_p_var_cost + a (curt i) * curtailment_cost))
     \<and> (\<forall>inst. create_instance (wind_solar_storage_model w s d) = Inr inst
                \<longrightarrow> inst_OBJ inst = e)
     \<and> wind_cap_cost = 1200000000 \<and> solar_cap_cost = 800000000
     \<and> ESS_p_cap_cost = 200000000 \<and> ESS_e_cap_cost = 150000000
     \<and> ESS_p_var_cost = 5000 \<and> curtailment_cost = 1000"
proof -
  let ?m = "wind_solar_storage_model w s d"
  let ?c = "\<lambda>k. if k = ''w_cap'' then wind_cap_cost else if k = ''s_cap'' then solar_cap_cost
             else if k = ''ESS_power_cap'' then ESS_p_cap_cost else ESS_e_cap_cost"
  let ?e = "Add (py_sum (map (\<lambda>k. Mul (Var (cap k)) (Num (?c k))) tech_keys))
              (py_sum (map (\<lambda>t. Add (Mul (Var (ESS_d t)) (Num ESS_p_var_cost))
                                      (Mul (Var (curt t)) (Num curtailment_cost))) [0..8759]))"
  have e: "obj_expression ?m = Inr ?e"
    by (rule obj_expression_declared) (simp_all add: model_costs_script)
  have "expr_value a ?e =
            a (cap ''w_cap'') * wind_cap_cost + a (cap ''s_cap'') * solar_cap_cost
            + a (cap ''ESS_power_cap'') * ESS_p_cap_cost
            + a (cap ''ESS_energy_cap'') * ESS_e_cap_cost
            + (\<Sum>i = 0..8759. a (ESS_d i) * ESS_p_var_cost + a (curt i) * curtailment_cost)"
    for a
  proof -
    have 1: "sum_list (map (expr_value a) (map (\<lambda>k. Mul (Var (cap k)) (Num (?c k))) tech_keys))
        = a (cap ''w_cap'') * wind_cap_cost + a (cap ''s_cap'') * solar_cap_cost
            + a (cap ''ESS_power_cap'') * ESS_p_cap_cost
            + a (cap ''ESS_energy_cap'') * ESS_e_cap_cost"
      by (simp add: tech_keys_def)
    have 2: "sum_list (map (expr_value a) (map (\<lambda>t. Add (Mul (Var (ESS_d t)) (Num ESS_p_var_cost))
                                      (Mul (Var (curt t)) (Num curtailment_cost))) [0..8759]))
        = (\<Sum>i = 0..8759. a (ESS_d i) * ESS_p_var_cost + a (curt i) * curtailment_cost)"
      by (simp only: map_map o_def expr_value.simps sum_list_hours)
    show ?thesis
      by (simp only: expr_value.simps expr_value_py_sum 1 2)
  qed
  moreover have "inst_OBJ inst = ?e" if "create_instance ?m = Inr inst" for inst
    using create_instance_Inr(1) [OF that] e by simp
  moreover have "wind_cap_cost = 1200000000 \<and> solar_cap_cost = 800000000
     \<and> ESS_p_cap_cost = 200000000 \<and> ESS_e_cap_cost = 150000000
     \<and> ESS_p_var_cost = 5000 \<and> curtailment_cost = 1000"
    by (simp add: wind_cap_cost_def solar_cap_cost_def ESS_p_cap_cost_def ESS_e_cap_cost_def
          ESS_p_var_cost_def curtailment_cost_def)
  ultimately show ?thesis using e by blast
qed

text \<open>
  The steady year under \<open>churn\<close>:
  \<open>10 * 1.2e9 + 240 * 8e8 + 1855 * 2e8 + 500 * 1.5e8 + 8760 * 855 * 5000\<close>.
\<close>

theorem obj_expression_total_cost_witness:
  "\<exists>e inst. obj_expression steady_year = Inr e \<and> create_instance steady_year = Inr inst
     \<and> inst_OBJ inst = e \<and> expr_value churn e = 687449000000"
proof -
  from obj_expression_total_cost [of "series 8760 (\<lambda>i. 1 / 2)" "series 8760 (\<lambda>i. 1)"
      "series 8760 (\<lambda>i. 100)"]
  obtain e where e: "obj_expression steady_year = Inr e"
    and v: "expr_value churn e =
            churn (cap ''w_cap'') * wind_cap_cost + churn (cap ''s_cap'') * solar_cap_cost
            + churn (cap ''ESS_power_cap'') * ESS_p_cap_cost
            + churn (cap ''ESS_energy_cap'') * ESS_e_cap_cost
            + (\<Sum>i = 0..8759. churn (ESS_d i) * ESS_p_var_cost + churn (curt i) * curtailment_cost)"
    and i: "\<And>inst. create_instance steady_year = Inr inst \<Longrightarrow> inst_OBJ inst = e"
    unfolding steady_year_def by blast
  from feasibleD [OF feasible_steady_year_churn] obtain inst
    where c: "create_instance steady_year = Inr inst" by blast
  have "expr_value churn e = 687449000000"
    unfolding v
    by (simp add: churn_def wind_cap_cost_def solar_cap_cost_def ESS_p_cap_cost_def
          ESS_e_cap_cost_def ESS_p_var_cost_def curtailment_cost_def)
  with e c i [OF c] show ?thesis by blast
qed

text \<open>
  C4. Non-negative domains. The variables of an instance are exactly \<open>cap[k]\<close> for every
  technology \<open>k\<close> and \<open>ESS_SOC[i]\<close>, \<open>ESS_c[i]\<close>, \<open>ESS_d[i]\<close>, \<open>curt[i]\<close>
  for every hour \<open>i\<close>, each declared with the domain NonNegativeReals; so no variable is
  negative in a feasible assignment. The restriction is the domain: no constraint of the
  instance is a sign constraint \<open>v >= 0\<close> or \<open>0 <= v\<close> on a variable.
\<close>

theorem variable_domains_nonnegative:
  assumes "create_instance m = Inr inst"
  shows "set (inst_vars inst) =
           (\<lambda>v. (v, NonNegativeReals)) `
             (cap ` set (model_tech m) \<union> ESS_SOC ` set (model_t m) \<union> ESS_c ` set (model_t m)
              \<union> ESS_d ` set (model_t m) \<union> curt ` set (model_t m))
       \<and> (\<forall>a. lp_feasible inst a \<longrightarrow>
              (\<forall>k \<in> set (model_tech m). 0 \<le> a (cap k))
            \<and> (\<forall>i \<in> set (model_t m). 0 \<le> a (ESS_SOC i) \<and> 0 \<le> a (ESS_c i)
                   \<and> 0 \<le> a (ESS_d i) \<and> 0 \<le> a (curt i)))
       \<and> (\<forall>c \<in> set (constraints inst). \<forall>v. c \<noteq> Ge (Var v) (Num 0) \<and> c \<noteq> Le (Num 0) (Var v))"
proof -
  have v: "inst_vars inst = declare_vars m"
    by (rule create_instance_Inr(7) [OF assms])
  have 1: "set (inst_vars inst) =
           (\<lambda>v. (v, NonNegativeReals)) `
             (cap ` set (model_tech m) \<union> ESS_SOC ` set (model_t m) \<union> ESS_c ` set (model_t m)
              \<union> ESS_d ` set (model_t m) \<union> curt ` set (model_t m))"
    unfolding v declare_vars_def by (simp add: image_Un image_image Un_assoc)
  have 2: "(\<forall>k \<in> set (model_tech m). 0 \<le> a (cap k))
            \<and> (\<forall>i \<in> set (model_t m). 0 \<le> a (ESS_SOC i) \<and> 0 \<le> a (ESS_c i)
                   \<and> 0 \<le> a (ESS_d i) \<and> 0 \<le> a (curt i))" if "lp_feasible inst a" for a
    using that unfolding lp_feasible_def v declare_vars_def
    by (simp add: list_all_iff ball_Un)
  have 3: "c \<noteq> Ge (Var v) (Num 0) \<and> c \<noteq> Le (Num 0) (Var v)"
    if "c \<in> set (constraints inst)" for c v
    using constraint_shape [OF assms that] by auto
  from 2 have "\<forall>a. lp_feasible inst a \<longrightarrow>
              (\<forall>k \<in> set (model_tech m). 0 \<le> a (cap k))
            \<and> (\<forall>i \<in> set (model_t m). 0 \<le> a (ESS_SOC i) \<and> 0 \<le> a (ESS_c i)
                   \<and> 0 \<le> a (ESS_d i) \<and> 0 \<le> a (curt i))"
    by (intro allI impI)
  moreover from 3 have "\<forall>c \<in> set (constraints inst). \<forall>v. c \<noteq> Ge (Var v) (Num 0) \<and> c \<noteq> Le (Num 0) (Var v)"
    by (intro ballI allI)
  ultimately show ?thesis using 1 by (intro conjI)
qed

text \<open>
  The steady year: wind capacity, the state of charge at hour 0 and the curtailment at
  hour 8759 are declared non-negative, and are so under \<open>churn\<close>.
\<close>

theorem variable_domains_nonnegative_witness:
  "\<exists>inst. create_instance steady_year = Inr inst \<and> lp_feasible inst churn
     \<and> (cap ''w_cap'', NonNegativeReals) \<in> set (inst_vars inst)
     \<and> (ESS_SOC 0, NonNegativeReals) \<in> set (inst_vars inst)
     \<and> (curt 8759, NonNegativeReals) \<in> set (inst_vars inst)
     \<and> 0 \<le> churn (cap ''w_cap'') \<and> 0 \<le> churn (ESS_SOC 0) \<and> 0 \<le> churn (curt 8759)
     \<and> churn (cap ''w_cap'') = 10 \<and> churn (ESS_SOC 0) = 300"
proof -
  from feasibleD [OF feasible_steady_year_churn] obtain inst
    where c: "create_instance steady_year = Inr inst" and f: "lp_feasible inst churn" by blast
  note t = variable_domains_nonnegative [OF c]
  have k: "''w_cap'' \<in> set (model_tech steady_year)"
    by (simp add: steady_year_def wind_solar_storage_model_def tech_keys_def)
  have h: "0 \<in> set (model_t steady_year)" "8759 \<in> set (model_t steady_year)"
    by (simp_all add: steady_year_fields)
  from t have s: "set (inst_vars inst) =
           (\<lambda>v. (v, NonNegativeReals)) `
             (cap ` set (model_tech steady_year) \<union> ESS_SOC ` set (model_t steady_year)
              \<union> ESS_c ` set (model_t steady_year)
              \<union> ESS_d ` set (model_t steady_year) \<union> curt ` set (model_t steady_year))"
    by (rule conjunct1)
  from t f have n: "(\<forall>k \<in> set (model_tech steady_year). 0 \<le> churn (cap k))
            \<and> (\<forall>i \<in> set (model_t steady_year). 0 \<le> churn (ESS_SOC i) \<and> 0 \<le> churn (ESS_c i)
                   \<and> 0 \<le> churn (ESS_d i) \<and> 0 \<le> churn (curt i))"
    by (elim conjE allE [of _ churn] impE) (assumption, intro conjI, assumption+)
  from k h have
    "(cap ''w_cap'', NonNegativeReals) \<in> set (inst_vars inst)"
    "(ESS_SOC 0, NonNegativeReals) \<in> set (inst_vars inst)"
    "(curt 8759, NonNegativeReals) \<in> set (inst_vars inst)"
    unfolding s by (simp_all only: image_eqI Un_iff simp_thms)
  moreover from n k h have
    "0 \<le> churn (cap ''w_cap'')" "0 \<le> churn (ESS_SOC 0)" "0 \<le> churn (curt 8759)"
    by (simp_all only:)
  moreover have "churn (cap ''w_cap'') = 10" "churn (ESS_SOC 0) = 300"
    by (simp_all add: churn_def)
  ultimately show ?thesis using c f by blast
qed

text \<open>
  C5. Closure of the cycle. With the declared 8760 hours, an assignment that satisfies
  the 8760 state-of-charge constraints (nothing else is assumed of it) has increments
  \<open>ESS_c[i]*0.95 - ESS_d[i]/0.9\<close> that sum to zero over the year: followed around the
  cycle, the recursion returns the state of charge to its starting value.
\<close>

theorem SOC_const_cycle_closure:
  assumes "declared_sets m"
    and "collect (SOC_const m) (model_t m) = Inr cs"
    and "list_all (sat a) cs"
  shows "(\<Sum>i = 0..8759. a (ESS_c i) * 0.95 - a (ESS_d i) / 0.9) = 0
       \<and> (\<Sum>i = 0..8759. a (ESS_SOC i) - a (ESS_SOC (if i = 0 then 8759 else i - 1))) = 0"
proof -
  have step: "a (ESS_c i) * 0.95 - a (ESS_d i) / 0.9
                = a (ESS_SOC i) - a (ESS_SOC (if i = 0 then 8759 else i - 1))"
    if "i \<in> {0..8759}" for i
  proof -
    from that assms(1) have i: "0 \<le> i" "i \<le> 8759" "i \<in> set (model_t m)"
      by (simp_all add: hour_in_t)
    from collect_Inr_elem [OF assms(2) i(3)] obtain c
      where c: "c \<in> set cs" "SOC_const m i = Inr c" by blast
    from c(1) assms(3) have "sat a c"
      by (simp add: list_all_iff)
    with c(2) SOC_const_declared [OF assms(1) i(1,2)]
    have "sat a (Eq (Var (ESS_SOC i))
                   (Sub (Add (Var (ESS_SOC (if i = 0 then 8759 else i - 1)))
                             (Mul (Var (ESS_c i)) (Num ESS_eta_c)))
                        (Div (Var (ESS_d i)) (Num ESS_eta_d))))"
      by auto
    then show ?thesis
      by (simp add: ESS_eta_c_def ESS_eta_d_def)
  qed
  have "(\<Sum>i = 0..8759. a (ESS_c i) * 0.95 - a (ESS_d i) / 0.9)
          = (\<Sum>i = 0..8759. a (ESS_SOC i) - a (ESS_SOC (if i = 0 then 8759 else i - 1)))"
    by (rule sum.cong) (simp_all only: step)
  moreover have "(\<Sum>i = 0..8759. a (ESS_SOC i) - a (ESS_SOC (if i = 0 then 8759 else i - 1))) = 0"
    by (rule cyclic_sum [of 8759 "\<lambda>i. a (ESS_SOC i)"]) simp
  ultimately show ?thesis by simp
qed

text \<open>
  The steady year under \<open>churn\<close>: every hour adds \<open>950 - 950\<close>.
\<close>

theorem SOC_const_cycle_closure_witness:
  "declared_sets steady_year
   \<and> collect (SOC_const steady_year) (model_t steady_year) =
        Inr (map (\<lambda>i. Eq (Var (ESS_SOC i))
                   (Sub (Add (Var (ESS_SOC (if i = 0 then 8759 else i - 1)))
                             (Mul (Var (ESS_c i)) (Num ESS_eta_c)))
                        (Div (Var (ESS_d i)) (Num ESS_eta_d)))) [0..8759])
   \<and> list_all (sat churn)
        (map (\<lambda>i. Eq (Var (ESS_SOC i))
                   (Sub (Add (Var (ESS_SOC (if i = 0 then 8759 else i - 1)))
                             (Mul (Var (ESS_c i)) (Num ESS_eta_c)))
                        (Div (Var (ESS_d i)) (Num ESS_eta_d)))) [0..8759])
   \<and> (\<Sum>i = 0..8759. churn (ESS_c i) * 0.95 - churn (ESS_d i) / 0.9) = 0"
proof -
  let ?cs = "map (\<lambda>i. Eq (Var (ESS_SOC i))
                   (Sub (Add (Var (ESS_SOC (if i = 0 then 8759 else i - 1)))
                             (Mul (Var (ESS_c i)) (Num ESS_eta_c)))
                        (Div (Var (ESS_d i)) (Num ESS_eta_d)))) [0..8759]"
  have 1: "collect (SOC_const steady_year) (model_t steady_year) = Inr ?cs"
    unfolding steady_year_fields(2)
    by (rule collect_map) (simp add: SOC_const_declared [OF steady_year_fields(1)])
  have 2: "list_all (sat churn) ?cs"
    by (simp add: list_all_iff churn_def ESS_eta_c_def ESS_eta_d_def)
  from SOC_const_cycle_closure [OF steady_year_fields(1) 1 2] 1 2 steady_year_fields(1)
  show ?thesis by blast
qed

text \<open>
  C6. Storage energy bounds. In every feasible assignment and for every hour, the state of
  charge is at most the installed energy capacity and at least the minimum level, 0.20,
  times the installed energy capacity.
\<close>

theorem ESS_energy_bounds:
  assumes "feasible m a" and "i \<in> set (model_t m)"
  shows "a (ESS_SOC i) \<le> a (cap ''ESS_energy_cap'')
       \<and> a (ESS_SOC i) \<ge> 0.20 * a (cap ''ESS_energy_cap'')
       \<and> ESS_min_level = 0.20"
proof -
  from feasible_rule [OF assms] obtain c3 c4
    where c: "ESS_max_const m i = Inr c3" "sat a c3" "ESS_min_const m i = Inr c4" "sat a c4"
    by blast
  from ESS_max_const_Inr [OF c(1)] ESS_min_const_Inr [OF c(3)] c(2,4)
  show ?thesis by (simp add: ESS_min_level_def)
qed

text \<open>
  The steady year: a state of charge of 300 between 100 and 500.
\<close>

theorem ESS_energy_bounds_witness:
  "feasible steady_year churn \<and> 0 \<in> set (model_t steady_year)
   \<and> churn (ESS_SOC 0) \<le> churn (cap ''ESS_energy_cap'')
   \<and> churn (ESS_SOC 0) \<ge> 0.20 * churn (cap ''ESS_energy_cap'')
   \<and> churn (ESS_SOC 0) = 300 \<and> churn (cap ''ESS_energy_cap'') = 500"
  using ESS_energy_bounds [OF feasible_steady_year_churn hour_0]
  by (simp add: feasible_steady_year_churn steady_year_fields churn_def)

text \<open>
  C7. Storage power limit. In every feasible assignment and for every hour, charge plus
  discharge is at most the installed storage power capacity; and nothing forbids both in
  the same hour: the steady year has a feasible assignment that charges and discharges
  at hour 0.
\<close>

theorem ESS_power_limit:
  assumes "feasible m a" and "i \<in> set (model_t m)"
  shows "a (ESS_c i) + a (ESS_d i) \<le> a (cap ''ESS_power_cap'')
       \<and> (\<exists>b. feasible steady_year b \<and> 0 < b (ESS_c 0) \<and> 0 < b (ESS_d 0))"
proof -
  from feasible_rule [OF assms] obtain c2
    where c: "ESS_charge_disc_const m i = Inr c2" "sat a c2" by blast
  from ESS_charge_disc_const_Inr [OF c(1)] c(2)
  have "a (ESS_c i) + a (ESS_d i) \<le> a (cap ''ESS_power_cap'')" by simp
  moreover have "feasible steady_year churn \<and> 0 < churn (ESS_c 0) \<and> 0 < churn (ESS_d 0)"
    by (simp add: feasible_steady_year_churn churn_def)
  ultimately show ?thesis by blast
qed

text \<open>
  The steady year: 1000 charged and 855 discharged within a power capacity of 1855.
\<close>

theorem ESS_power_limit_witness:
  "feasible steady_year churn \<and> 0 \<in> set (model_t steady_year)
   \<and> churn (ESS_c 0) + churn (ESS_d 0) \<le> churn (cap ''ESS_power_cap'')
   \<and> churn (ESS_c 0) = 1000 \<and> churn (ESS_d 0) = 855"
  using ESS_power_limit [OF feasible_steady_year_churn hour_0]
  by (simp add: feasible_steady_year_churn steady_year_fields churn_def)

text \<open>
  C8, as the code has it. The script compares no length with 8760 and has no
  DataShapeError: the time index is loaded from the file with the series. A file of
  \<open>n\<close> rows for the hours \<open>0\<close> to \<open>n - 1\<close>, whatever \<open>n\<close> from 1 on, gives a complete
  instance over these \<open>n\<close> hours: the balance constraint of every hour with the data of
  that hour, the state-of-charge constraints closed from hour \<open>0\<close> back to hour
  \<open>n - 1\<close>, \<open>n\<close> constraints of each of the five families and \<open>4 + 4 * n\<close> variables.
  Construction does not fail.
\<close>

theorem series_length_unchecked:
  assumes "1 \<le> n"
  shows "\<exists>inst. create_instance_from_file n w s d = Inr inst
     \<and> inst_match inst =
         map (\<lambda>i. Eq (Sub (Sub (Sub (Add (Add (Mul (Num (s i)) (Var (cap ''s_cap'')))
                                             (Mul (Num (w i)) (Var (cap ''w_cap''))))
                                    (Var (ESS_d i))) (Var (ESS_c i))) (Var (curt i))) (Num (d i)))
                (Num 0)) [0..n - 1]
     \<and> inst_SOC_const inst =
         map (\<lambda>i. Eq (Var (ESS_SOC i))
             (Sub (Add (Var (ESS_SOC (if i = 0 then n - 1 else i - 1)))
                       (Mul (Var (ESS_c i)) (Num ESS_eta_c)))
                  (Div (Var (ESS_d i)) (Num ESS_eta_d)))) [0..n - 1]
     \<and> length (inst_match inst) = nat n
     \<and> length (inst_ESS_charge_disc_rate inst) = nat n
     \<and> length (inst_ESS_max inst) = nat n
     \<and> length (inst_ESS_min inst) = nat n
     \<and> length (inst_SOC_const inst) = nat n
     \<and> length (inst_vars inst) = 4 + 4 * nat n"
proof -
  from create_instance_loaded [OF assms, of w s d] obtain obj inst
    where i: "create_instance (loaded_model n w s d) = Inr inst"
      and inst: "inst = \<lparr>inst_vars = declare_vars (loaded_model n w s d),
      inst_OBJ = obj,
      inst_match = map (\<lambda>i. Eq (Sub (Sub (Sub (Add (Add (Mul (Num (s i)) (Var (cap ''s_cap'')))
                                             (Mul (Num (w i)) (Var (cap ''w_cap''))))
                                    (Var (ESS_d i))) (Var (ESS_c i))) (Var (curt i))) (Num (d i)))
                (Num 0)) [0..n - 1],
      inst_ESS_charge_disc_rate =
        map (\<lambda>i. Le (Add (Var (ESS_c i)) (Var (ESS_d i))) (Var (cap ''ESS_power_cap''))) [0..n - 1],
      inst_ESS_max = map (\<lambda>i. Le (Var (ESS_SOC i)) (Var (cap ''ESS_energy_cap''))) [0..n - 1],
      inst_ESS_min = map (\<lambda>i. Ge (Var (ESS_SOC i))
                                  (Mul (Num ESS_min_level) (Var (cap ''ESS_energy_cap'')))) [0..n - 1],
      inst_SOC_const = map (\<lambda>i. Eq (Var (ESS_SOC i))
             (Sub (Add (Var (ESS_SOC (if i = 0 then n - 1 else i - 1)))
                       (Mul (Var (ESS_c i)) (Num ESS_eta_c)))
                  (Div (Var (ESS_d i)) (Num ESS_eta_d)))) [0..n - 1]\<rparr>"
    by blast
  have f: "create_instance_from_file n w s d = Inr inst"
    using assms i by (simp add: create_instance_from_file_def)
  have l: "length (inst_match inst) = nat n" "length (inst_ESS_charge_disc_rate inst) = nat n"
    "length (inst_ESS_max inst) = nat n" "length (inst_ESS_min inst) = nat n"
    "length (inst_SOC_const inst) = nat n"
    using assms by (simp_all add: inst)
  have v: "length (inst_vars inst) = 4 + 4 * nat n"
    using length_declare_vars_loaded [OF assms] by (simp add: inst)
  from f l v show ?thesis
    by (simp add: inst)
qed

text \<open>
  A file of 8761 rows: an instance of 8761 hours.
\<close>

theorem series_length_unchecked_witness:
  "(1::int) \<le> 8761
   \<and> (\<exists>inst. create_instance_from_file 8761 (\<lambda>i. 1 / 2) (\<lambda>i. 1) (\<lambda>i. 100) = Inr inst
         \<and> length (inst_match inst) = 8761 \<and> length (inst_SOC_const inst) = 8761
         \<and> length (inst_vars inst) = 35048)"
proof -
  have n: "(1::int) \<le> 8761" by simp
  from series_length_unchecked [OF n, of "\<lambda>i. 1 / 2" "\<lambda>i. 1" "\<lambda>i. 100"]
  obtain inst where "create_instance_from_file 8761 (\<lambda>i. 1 / 2) (\<lambda>i. 1) (\<lambda>i. 100) = Inr inst"
    "length (inst_match inst) = nat 8761" "length (inst_SOC_const inst) = nat 8761"
    "length (inst_vars inst) = 4 + 4 * nat 8761"
    by blast
  then show ?thesis by auto
qed

text \<open>
  C8 as stated fails on a file of 8759 rows: the construction raises nothing, DataShapeError
  or other, and returns an instance of 8759 hours.
\<close>

theorem year_of_8759_rows_is_built:
  "\<not> isl year_of_8759_rows \<and> year_of_8759_rows \<noteq> Inl ''DataShapeError''
   \<and> length (inst_match (projr year_of_8759_rows)) = 8759
   \<and> length (inst_SOC_const (projr year_of_8759_rows)) = 8759
   \<and> length (inst_vars (projr year_of_8759_rows)) = 35040"
proof -
  have n: "(1::int) \<le> 8759" by simp
  from create_instance_loaded [OF n, of "\<lambda>i. 1 / 2" "\<lambda>i. 1" "\<lambda>i. 100"]
  obtain inst where i: "create_instance (loaded_model 8759 (\<lambda>i. 1 / 2) (\<lambda>i. 1) (\<lambda>i. 100)) = Inr inst"
    and m: "length (inst_match inst) = length [0..(8759::int) - 1]"
    and c: "length (inst_SOC_const inst) = length [0..(8759::int) - 1]"
    and v: "inst_vars inst = declare_vars (loaded_model 8759 (\<lambda>i. 1 / 2) (\<lambda>i. 1) (\<lambda>i. 100))"
    by (auto simp del: length_upto)
  have y: "year_of_8759_rows = Inr inst"
    using i by (simp add: year_of_8759_rows_def create_instance_from_file_def)
  have "length (inst_vars inst) = 35040"
    using length_declare_vars_loaded [OF n] v by simp
  with m c show ?thesis by (simp add: y)
qed

text \<open>
  C10. Monotonicity in the costs. Two models that differ in the cost table only, the second
  table at least the first on every technology: the objective value of an optimal
  assignment of the second is at least that of an optimal assignment of the first.
\<close>

theorem optimal_cost_monotone:
  assumes "\<forall>k \<in> set (model_tech m). \<exists>x y. model_costs m k = Some x \<and> c' k = Some y \<and> x \<le> y"
    and "optimal m a" and "optimal (m\<lparr>model_costs := c'\<rparr>) a'"
  shows "\<exists>v v'. objective_value m a = Some v
           \<and> objective_value (m\<lparr>model_costs := c'\<rparr>) a' = Some v' \<and> v \<le> v'"
proof -
  let ?m' = "m\<lparr>model_costs := c'\<rparr>"
  from assms(2) obtain inst where i: "create_instance m = Inr inst"
    and f: "lp_feasible inst a"
    and least: "\<And>b. lp_feasible inst b \<Longrightarrow>
                  expr_value a (inst_OBJ inst) \<le> expr_value b (inst_OBJ inst)"
    by (auto simp: optimal_def split: sum.splits)
  from assms(3) obtain inst' where i': "create_instance ?m' = Inr inst'"
    and f': "lp_feasible inst' a'"
    by (auto simp: optimal_def split: sum.splits)
  have fa': "lp_feasible inst a'"
    using f' lp_feasible_ignores_costs [OF i i'] by simp
  let ?ops = "\<lambda>b. \<Sum>i\<leftarrow>model_t m. b (ESS_d i) * ESS_p_var_cost + b (curt i) * curtailment_cost"
  have v: "expr_value b (inst_OBJ inst)
             = (\<Sum>k\<leftarrow>model_tech m. b (cap k) * the (model_costs m k)) + ?ops b" for b
    by (rule obj_expression_value [OF create_instance_Inr(1) [OF i]])
  have v': "expr_value b (inst_OBJ inst')
             = (\<Sum>k\<leftarrow>model_tech m. b (cap k) * the (c' k)) + ?ops b" for b
    using obj_expression_value [OF create_instance_Inr(1) [OF i'], of b] by simp
  have "(\<Sum>k\<leftarrow>model_tech m. a' (cap k) * the (model_costs m k))
          \<le> (\<Sum>k\<leftarrow>model_tech m. a' (cap k) * the (c' k))"
  proof (rule sum_list_mono)
    fix k assume k: "k \<in> set (model_tech m)"
    with assms(1) have "the (model_costs m k) \<le> the (c' k)" by fastforce
    moreover have "0 \<le> a' (cap k)"
      using lp_feasible_cap_nonneg [OF i fa' k] .
    ultimately show "a' (cap k) * the (model_costs m k) \<le> a' (cap k) * the (c' k)"
      by (rule mult_left_mono)
  qed
  then have "expr_value a' (inst_OBJ inst) \<le> expr_value a' (inst_OBJ inst')"
    by (simp add: v v')
  with least [OF fa'] have "expr_value a (inst_OBJ inst) \<le> expr_value a' (inst_OBJ inst')"
    by simp
  then show ?thesis
    by (simp add: objective_value_def i i')
qed

text \<open>
  The steady year and the dearer year, both optimal with 100 of solar capacity and nothing
  else: \<open>100 * 8e8 \<le> 100 * 9e8\<close>.
\<close>

theorem optimal_cost_monotone_witness:
  "optimal steady_year solar_only \<and> optimal dearer_year solar_only
   \<and> dearer_year = steady_year\<lparr>model_costs := model_costs dearer_year\<rparr>
   \<and> model_costs steady_year ''s_cap'' = Some 800000000
   \<and> model_costs dearer_year ''s_cap'' = Some 900000000
   \<and> model_costs steady_year ''ESS_power_cap'' = Some 200000000
   \<and> model_costs dearer_year ''ESS_power_cap'' = Some 250000000
   \<and> (\<exists>v v'. objective_value steady_year solar_only = Some v
          \<and> objective_value dearer_year solar_only = Some v' \<and> v \<le> v'
          \<and> v = 80000000000 \<and> v' = 90000000000)"
proof -
  have u: "dearer_year = steady_year\<lparr>model_costs := model_costs dearer_year\<rparr>"
    by (simp add: dearer_year_def)
  have c: "\<forall>k \<in> set (model_tech steady_year).
             \<exists>x y. model_costs steady_year k = Some x \<and> model_costs dearer_year k = Some y \<and> x \<le> y"
    by (simp add: steady_year_def wind_solar_storage_model_def tech_keys_def cost_table_def
          dearer_year_def solar_cap_cost_def wind_cap_cost_def ESS_p_cap_cost_def ESS_e_cap_cost_def)
  have o: "optimal steady_year solar_only" "optimal dearer_year solar_only"
    using steady_year_optimum dearer_year_optimum by simp_all
  from optimal_cost_monotone [OF c o(1), of solar_only] o(2) u
  obtain v v' where "objective_value steady_year solar_only = Some v"
    "objective_value dearer_year solar_only = Some v'" "v \<le> v'"
    by auto
  moreover from this steady_year_optimum dearer_year_optimum
  have "v = 80000000000" "v' = 90000000000" by simp_all
  ultimately show ?thesis
    using o u steady_year_costs dearer_year_fields by blast
qed

end
